theory Spec2Isabelle
  imports Complex_Main
begin

section \<open>Python values shared by the modules\<close>

text \<open>
  A raised exception. \<open>Exception c\<close> is an instance of a class \<open>c\<close> that derives from
  Python's \<open>Exception\<close> (what \<open>except Exception\<close> catches); \<open>BaseException c\<close> is an
  instance of a class that derives from \<open>BaseException\<close> only (\<open>KeyboardInterrupt\<close>,
  \<open>SystemExit\<close>, \<open>GeneratorExit\<close>), which \<open>except Exception\<close> lets through.
\<close>

datatype exn = Exception string | BaseException string

fun is_Exception :: "exn \<Rightarrow> bool" where
  "is_Exception (Exception c) = True"
| "is_Exception (BaseException c) = False"

text \<open>
  The three ways a call on a synchronised object can end: it returns, it raises, or the
  calling thread is parked on a condition variable.
\<close>

datatype 'a outcome = Returns 'a | Raises exn | Blocks

text \<open>Truthiness of an \<open>os.getenv\<close> result: \<open>None\<close> and the empty string are falsy.\<close>

fun falsy :: "string option \<Rightarrow> bool" where
  "falsy None = True"
| "falsy (Some s) = (s = [])"

section \<open>mltrack.py: the bounded asynchronous logger\<close>

subsection \<open>The queue of the standard library\<close>

text \<open>
  One queued dictionary \<open>{"run_name": .., "metrics": .., "params": ..}\<close>. Dictionaries are
  association lists in insertion order.
\<close>

record log_item =
  run_name :: string
  metrics :: "(string \<times> real) list"
  params :: "(string \<times> string) list"

text \<open>
  \<open>queue.Queue\<close>: the deque of items, the capacity and the counter of unfinished tasks.
  The worker tests \<open>item is None\<close>, so a slot holds \<open>None\<close> or a dictionary.
\<close>

record py_queue =
  maxsize :: nat
  items :: "log_item option list"
  unfinished_tasks :: nat

definition Queue :: "nat \<Rightarrow> py_queue" where
  "Queue m = \<lparr>maxsize = m, items = [], unfinished_tasks = 0\<rparr>"

text \<open>
  \<open>Queue.put(item, block, timeout=None)\<close>: with a positive capacity and a full deque, a
  non-blocking put raises \<open>queue.Full\<close> and a blocking one waits on \<open>not_full\<close>;
  otherwise the item goes to the tail and \<open>unfinished_tasks\<close> grows by one.
\<close>

definition put :: "py_queue \<Rightarrow> log_item option \<Rightarrow> bool \<Rightarrow> py_queue outcome" where
  "put qu x block =
     (if 0 < maxsize qu \<and> maxsize qu \<le> length (items qu) then
        (if \<not> block then Raises (Exception ''Full'') else Blocks)
      else Returns (qu\<lparr>items := items qu @ [x],
                        unfinished_tasks := Suc (unfinished_tasks qu)\<rparr>))"

definition put_nowait :: "py_queue \<Rightarrow> log_item option \<Rightarrow> py_queue outcome" where
  "put_nowait qu x = put qu x False"

text \<open>
  \<open>Queue.get()\<close> with the default \<open>block=True, timeout=None\<close>: waits on \<open>not_empty\<close>
  while the deque is empty, otherwise pops the head.
\<close>

definition get :: "py_queue \<Rightarrow> (log_item option \<times> py_queue) outcome" where
  "get qu = (case items qu of
               [] \<Rightarrow> Blocks
             | x # xs \<Rightarrow> Returns (x, qu\<lparr>items := xs\<rparr>))"

text \<open>\<open>Queue.task_done()\<close> raises \<open>ValueError\<close> when called more often than \<open>put\<close>.\<close>

definition task_done :: "py_queue \<Rightarrow> py_queue outcome" where
  "task_done qu =
     (if unfinished_tasks qu = 0 then Raises (Exception ''ValueError'')
      else Returns (qu\<lparr>unfinished_tasks := unfinished_tasks qu - 1\<rparr>))"

subsection \<open>Module state and \<open>log_async\<close>\<close>

text \<open>
  The module globals: \<open>_MLFLOW_URI\<close> and \<open>_EXP\<close> read from the environment at import,
  the queue \<open>_q\<close> and the flag \<open>_started\<close>.
\<close>

record mltrack =
  MLFLOW_URI :: "string option"
  EXP :: string
  q :: py_queue
  started :: bool

definition mltrack_import :: "string option \<Rightarrow> string option \<Rightarrow> mltrack" where
  "mltrack_import uri exp_name =
     \<lparr>MLFLOW_URI = uri,
      EXP = (case exp_name of None \<Rightarrow> ''default'' | Some n \<Rightarrow> n),
      q = Queue 10000,
      started = False\<rparr>"

text \<open>
  \<open>log_async(run_name, metrics, params=None)\<close>. \<open>params or {}\<close> replaces \<open>None\<close> and
  the empty dictionary by a fresh empty one. Only \<open>queue.Full\<close> is caught.
\<close>

definition log_async ::
  "mltrack \<Rightarrow> string \<Rightarrow> (string \<times> real) list \<Rightarrow> (string \<times> string) list option
     \<Rightarrow> unit outcome \<times> mltrack" where
  "log_async s rn ms ps =
     (if falsy (MLFLOW_URI s) then (Returns (), s)
      else
        (case put_nowait (q s)
                (Some \<lparr>run_name = rn, metrics = ms,
                       params = (case ps of None \<Rightarrow> []
                                 | Some d \<Rightarrow> if d = [] then [] else d)\<rparr>) of
           Returns q' \<Rightarrow> (Returns (), s\<lparr>q := q'\<rparr>)
         | Raises e \<Rightarrow> (if e = Exception ''Full'' then (Returns (), s) else (Raises e, s))
         | Blocks \<Rightarrow> (Blocks, s)))"

subsection \<open>The tracking backend and the worker\<close>

text \<open>
  The mlflow client, as far as the worker uses it. The state \<open>'b\<close> of the tracking
  server is left open; every call returns the new state and the exception it raised, if
  any. \<open>end_run\<close> is what leaving the \<open>with mlflow.start_run(..)\<close> block calls, with
  \<open>True\<close> for status FINISHED and \<open>False\<close> for FAILED.
\<close>

record 'b backend =
  set_tracking_uri :: "'b \<Rightarrow> string \<Rightarrow> exn option \<times> 'b"
  set_experiment :: "'b \<Rightarrow> string \<Rightarrow> exn option \<times> 'b"
  start_run :: "'b \<Rightarrow> string \<Rightarrow> exn option \<times> 'b"
  log_metric :: "'b \<Rightarrow> string \<Rightarrow> real \<Rightarrow> exn option \<times> 'b"
  log_param :: "'b \<Rightarrow> string \<Rightarrow> string \<Rightarrow> exn option \<times> 'b"
  end_run :: "'b \<Rightarrow> bool \<Rightarrow> exn option \<times> 'b"

text \<open>The two \<open>for k, v in item.get(..).items()\<close> loops stop at the first exception.\<close>

fun log_metrics :: "'b backend \<Rightarrow> 'b \<Rightarrow> (string \<times> real) list \<Rightarrow> exn option \<times> 'b" where
  "log_metrics be b [] = (None, b)"
| "log_metrics be b ((k, v) # kvs) =
     (case log_metric be b k v of
        (Some e, b') \<Rightarrow> (Some e, b')
      | (None, b') \<Rightarrow> log_metrics be b' kvs)"

fun log_params :: "'b backend \<Rightarrow> 'b \<Rightarrow> (string \<times> string) list \<Rightarrow> exn option \<times> 'b" where
  "log_params be b [] = (None, b)"
| "log_params be b ((k, v) # kvs) =
     (case log_param be b k v of
        (Some e, b') \<Rightarrow> (Some e, b')
      | (None, b') \<Rightarrow> log_params be b' kvs)"

text \<open>
  The body of the \<open>try\<close>: one run per item. An exception of \<open>start_run\<close> leaves no
  run to close. Otherwise the run is closed on the way out, also when the block raised;
  closing does not suppress the block's exception, and an exception of the closing itself
  replaces it.
\<close>

definition forward :: "'b backend \<Rightarrow> 'b \<Rightarrow> log_item \<Rightarrow> exn option \<times> 'b" where
  "forward be b item =
     (case start_run be b (run_name item) of
        (Some e, b1) \<Rightarrow> (Some e, b1)
      | (None, b1) \<Rightarrow>
          (case (case log_metrics be b1 (metrics item) of
                   (Some e, b2) \<Rightarrow> (Some e, b2)
                 | (None, b2) \<Rightarrow> log_params be b2 (params item)) of
             (r, b3) \<Rightarrow>
               (case end_run be b3 (r = None) of
                  (Some e, b4) \<Rightarrow> (Some e, b4)
                | (None, b4) \<Rightarrow> (r, b4))))"

text \<open>
  One pass through \<open>while True\<close>. \<open>None\<close> breaks before the \<open>try\<close>, so without
  \<open>task_done\<close>. \<open>except Exception: pass\<close> catches instances of \<open>Exception\<close> only;
  \<open>finally\<close> runs \<open>task_done\<close> in every case, and what it raises propagates.
\<close>

datatype 'b iteration = Continue 'b py_queue | Break 'b py_queue | Wait | Propagate exn 'b py_queue

definition worker_iteration :: "'b backend \<Rightarrow> 'b \<Rightarrow> py_queue \<Rightarrow> 'b iteration" where
  "worker_iteration be b qu =
     (case get qu of
        Blocks \<Rightarrow> Wait
      | Raises e \<Rightarrow> Propagate e b qu
      | Returns (item, qu1) \<Rightarrow>
          (case item of
             None \<Rightarrow> Break b qu1
           | Some it \<Rightarrow>
               (case forward be b it of
                  (r, b1) \<Rightarrow>
                    (case task_done qu1 of
                       Raises e \<Rightarrow> Propagate e b1 qu1
                     | Blocks \<Rightarrow> Wait
                     | Returns qu2 \<Rightarrow>
                         (case r of
                            None \<Rightarrow> Continue b1 qu2
                          | Some e \<Rightarrow>
                              if is_Exception e then Continue b1 qu2
                              else Propagate e b1 qu2)))))"

text \<open>
  How the loop can end: parked in \<open>_q.get()\<close> on an empty queue (and resumed by the next
  \<open>put\<close>), returned after the \<open>None\<close> item, or killed by a propagating exception.
\<close>

datatype 'b worker_end = Waiting 'b py_queue | Returned 'b py_queue | Died exn 'b py_queue

function worker_loop :: "'b backend \<Rightarrow> 'b \<Rightarrow> py_queue \<Rightarrow> 'b worker_end" where
  "worker_loop be b qu =
     (case worker_iteration be b qu of
        Continue b' qu' \<Rightarrow> worker_loop be b' qu'
      | Break b' qu' \<Rightarrow> Returned b' qu'
      | Wait \<Rightarrow> Waiting b qu
      | Propagate e b' qu' \<Rightarrow> Died e b' qu')"
  by pat_completeness auto
termination
  by (relation "measure (\<lambda>(be, b, qu). length (items qu))")
     (auto simp: worker_iteration_def get_def task_done_def
           split: outcome.splits list.splits option.splits prod.splits if_splits)

declare worker_loop.simps [simp del]

text \<open>\<open>_worker()\<close>: returns at once when tracking is disabled.\<close>

definition worker :: "'b backend \<Rightarrow> mltrack \<Rightarrow> 'b \<Rightarrow> 'b worker_end" where
  "worker be s b =
     (if falsy (MLFLOW_URI s) then Returned b (q s)
      else
        (case set_tracking_uri be b (the (MLFLOW_URI s)) of
           (Some e, b1) \<Rightarrow> Died e b1 (q s)
         | (None, b1) \<Rightarrow>
             (case set_experiment be b1 (EXP s) of
                (Some e, b2) \<Rightarrow> Died e b2 (q s)
              | (None, b2) \<Rightarrow> worker_loop be b2 (q s))))"

text \<open>
  A backend whose failures (network errors, rejections) are all instances of
  \<open>Exception\<close>, as mlflow's are.
\<close>

definition raises_only_Exception :: "'b backend \<Rightarrow> bool" where
  "raises_only_Exception be \<longleftrightarrow>
     (\<forall>b n e b'. start_run be b n = (Some e, b') \<longrightarrow> is_Exception e) \<and>
     (\<forall>b k v e b'. log_metric be b k v = (Some e, b') \<longrightarrow> is_Exception e) \<and>
     (\<forall>b k v e b'. log_param be b k v = (Some e, b') \<longrightarrow> is_Exception e) \<and>
     (\<forall>b ok e b'. end_run be b ok = (Some e, b') \<longrightarrow> is_Exception e)"

text \<open>
  A tracking server that records the calls it accepts and rejects every metric named
  \<open>bad\<close>.
\<close>

definition flaky_backend :: "string list backend" where
  "flaky_backend =
     \<lparr>set_tracking_uri = (\<lambda>b u. (None, b @ [''set_tracking_uri '' @ u])),
      set_experiment = (\<lambda>b n. (None, b @ [''set_experiment '' @ n])),
      start_run = (\<lambda>b n. (None, b @ [''start_run '' @ n])),
      log_metric = (\<lambda>b k v. if k = ''bad'' then (Some (Exception ''MlflowException''), b)
                             else (None, b @ [''log_metric '' @ k])),
      log_param = (\<lambda>b k v. (None, b @ [''log_param '' @ k @ ''='' @ v])),
      end_run = (\<lambda>b ok. (None, b @ [if ok then ''end_run FINISHED'' else ''end_run FAILED'']))\<rparr>"

text \<open>A module state with a backend configured and the queue filled to its capacity.\<close>

definition full_mltrack :: mltrack where
  "full_mltrack =
     \<lparr>MLFLOW_URI = Some ''http://mlflow:5000'', EXP = ''default'',
      q = \<lparr>maxsize = 10000, items = replicate 10000 None, unfinished_tasks = 10000\<rparr>,
      started = True\<rparr>"

section \<open>Python built-ins used by the inference path\<close>

text \<open>\<open>str\<close> of an integer: the decimal digits, with a minus sign for a negative one.\<close>

definition digit :: "nat \<Rightarrow> char" where
  "digit d = ''0123456789'' ! d"

fun str_nat :: "nat \<Rightarrow> string" where
  "str_nat n = (if n < 10 then [digit n] else str_nat (n div 10) @ [digit (n mod 10)])"

declare str_nat.simps [simp del]

definition str_int :: "int \<Rightarrow> string" where
  "str_int i = (if i < 0 then CHR ''-'' # str_nat (nat (- i)) else str_nat (nat i))"

text \<open>Reading a decimal numeral back, to say what \<open>str_int\<close> produces.\<close>

definition digit_val :: "char \<Rightarrow> nat" where
  "digit_val c = of_char c - 48"

definition int_of_str :: "string \<Rightarrow> int" where
  "int_of_str s =
     (case s of
        [] \<Rightarrow> 0
      | c # cs \<Rightarrow>
          if c = CHR ''-'' then - int (foldl (\<lambda>a d. 10 * a + digit_val d) 0 cs)
          else int (foldl (\<lambda>a d. 10 * a + digit_val d) 0 s))"

text \<open>
  Rounding to \<open>n\<close> decimals, ties to even, as \<open>round(x, n)\<close> does for Python floats and
  for numpy scalars. Floats are idealised as reals: the binary representation error of
  the result is not modelled.
\<close>

definition rint :: "real \<Rightarrow> int" where
  "rint x =
     (let f = \<lfloor>x\<rfloor>; d = x - of_int f
      in if d < 1 / 2 then f
         else if 1 / 2 < d then f + 1
         else if even f then f else f + 1)"

definition py_round :: "real \<Rightarrow> nat \<Rightarrow> real" where
  "py_round x n = of_int (rint (x * 10 ^ n)) / 10 ^ n"

definition startswith :: "string \<Rightarrow> string \<Rightarrow> bool" where
  "startswith s p = (take (length p) s = p)"

text \<open>
  Dictionaries keep insertion order: storing under a present key replaces the value in
  place, storing under a new key appends.
\<close>

fun dict_set :: "('k \<times> 'v) list \<Rightarrow> 'k \<Rightarrow> 'v \<Rightarrow> ('k \<times> 'v) list" where
  "dict_set [] k v = [(k, v)]"
| "dict_set ((k', v') # d) k v = (if k' = k then (k, v) # d else (k', v') # dict_set d k v)"

definition dict_get :: "('k \<times> 'v) list \<Rightarrow> 'k \<Rightarrow> 'v \<Rightarrow> 'v" where
  "dict_get d k dflt = (case map_of d k of None \<Rightarrow> dflt | Some v \<Rightarrow> v)"

definition dict_update :: "('k \<times> 'v) list \<Rightarrow> ('k \<times> 'v) list \<Rightarrow> ('k \<times> 'v) list" where
  "dict_update d kvs = foldl (\<lambda>acc (k, v). dict_set acc k v) d kvs"

section \<open>config.py\<close>

definition INPUT_SIZE :: nat where
  "INPUT_SIZE = 320"

definition CLASS_NAMES :: "string list" where
  "CLASS_NAMES =
     [''Speed Limit 50'', ''Speed Limit 100'', ''No Overtaking'', ''Yield'', ''Stop'',
      ''No Entry'', ''Danger Ahead'', ''Road Work Ahead'', ''Pedestrian Crossing'',
      ''Children Crossing'']"

section \<open>infer.py: the model handle and the inference orchestrator\<close>

subsection \<open>External collaborators and process state\<close>

type_synonym bytes = "char list"

text \<open>A decoded image: height, width and the RGB samples.\<close>

datatype ndarray = NdArray nat nat "nat list"

text \<open>
  A model object. Every call of the constructor \<open>YOLO(..)\<close> that returns makes a new
  object; the number of the call that made it is its identity.
\<close>

datatype yolo = YOLO nat

text \<open>
  \<open>r.boxes\<close> of one detector result after \<open>.cpu().numpy().astype(..)\<close>: the rows of
  \<open>xyxy\<close> (or \<open>None\<close>), the class indices and the confidences.
\<close>

record raw_boxes =
  xyxy :: "(int \<times> int \<times> int \<times> int) list option"
  cls_ids :: "int list"
  confs :: "real list"

text \<open>
  Everything outside the repository is a parameter: what PIL, OpenCV and the detector
  return or raise on an input, whether the \<open>k\<close>-th constructor call raises, how many
  seconds of wall-clock time each of these calls takes, and, for the request handlers,
  the environment variable \<open>API_WORKERS\<close>, whether opening the audit file raises, and
  the formatting of a time stamp and of a float.
\<close>

record env =
  Image_open :: "bytes \<Rightarrow> exn + ndarray"
  YOLO_init :: "nat \<Rightarrow> exn option"
  cv2_resize :: "ndarray \<Rightarrow> nat \<Rightarrow> exn + ndarray"
  model_predict :: "yolo \<Rightarrow> ndarray \<Rightarrow> real option \<Rightarrow> exn + raw_boxes option list"
  cost_decode :: "bytes \<Rightarrow> real"
  cost_load :: "nat \<Rightarrow> real"
  cost_resize :: "ndarray \<Rightarrow> real"
  cost_predict :: "ndarray \<Rightarrow> real"
  cost_boxes :: "raw_boxes option list \<Rightarrow> real"
  API_WORKERS :: "string option"
  sink_open :: "exn option"
  strftime :: "real \<Rightarrow> string"
  str_float :: "real \<Rightarrow> string"

text \<open>A cell of a CSV row, as passed to \<open>csv.writer.writerow\<close>.\<close>

datatype cell = StrCell string | IntCell int | FloatCell real | NoneCell

text \<open>
  The state of the serving process: the clock (seconds; \<open>time.time()\<close> and
  \<open>time.perf_counter()\<close> both read it, and only differences are used), the global
  \<open>_model\<close> of infer.py, the globals of mltrack.py and the rows of the audit file; and,
  as counters of what has happened, the constructor calls, the detector calls and the
  reads of uploaded files.
\<close>

record world =
  now :: real
  model :: "yolo option"
  tracker :: mltrack
  predict_log :: "cell list list"
  YOLO_calls :: nat
  detector_calls :: nat
  file_reads :: nat

subsection \<open>\<open>get_model\<close>\<close>

text \<open>
  \<open>get_model()\<close> run without interruption. When the constructor raises, the
  assignment to \<open>_model\<close> does not happen.
\<close>

definition get_model :: "env \<Rightarrow> world \<Rightarrow> (exn + yolo) \<times> world" where
  "get_model e w =
     (case model w of
        None \<Rightarrow>
          (let k = YOLO_calls w;
               w1 = w\<lparr>YOLO_calls := Suc k, now := now w + cost_load e k\<rparr>
           in case YOLO_init e k of
                Some x \<Rightarrow> (Inl x, w1)
              | None \<Rightarrow> (Inr (YOLO k), w1\<lparr>model := Some (YOLO k)\<rparr>))
      | Some m \<Rightarrow> (Inr m, w))"

text \<open>\<open>n\<close> calls one after the other, with the result of each.\<close>

fun get_model_calls :: "env \<Rightarrow> nat \<Rightarrow> world \<Rightarrow> (exn + yolo) list \<times> world" where
  "get_model_calls e 0 w = ([], w)"
| "get_model_calls e (Suc n) w =
     (case get_model e w of
        (r, w1) \<Rightarrow> (case get_model_calls e n w1 of (rs, w2) \<Rightarrow> (r # rs, w2)))"

text \<open>
  \<open>get_model()\<close> run by several threads. No lock is taken, so a thread can be
  preempted between the test of \<open>_model\<close>, the constructor call, the store to
  \<open>_model\<close> and the final read of \<open>_model\<close> for \<open>return\<close>. A thread is at one of these
  four points, or done with an exception or with the value it returns.
\<close>

datatype pc = Test | Load | Store yolo | Return | Done "exn + yolo option"

fun thread_step :: "env \<Rightarrow> pc \<Rightarrow> world \<Rightarrow> pc \<times> world" where
  "thread_step e Test w = (if model w = None then Load else Return, w)"
| "thread_step e Load w =
     (let k = YOLO_calls w;
          w1 = w\<lparr>YOLO_calls := Suc k, now := now w + cost_load e k\<rparr>
      in case YOLO_init e k of
           Some x \<Rightarrow> (Done (Inl x), w1)
         | None \<Rightarrow> (Store (YOLO k), w1))"
| "thread_step e (Store m) w = (Return, w\<lparr>model := Some m\<rparr>)"
| "thread_step e Return w = (Done (Inr (model w)), w)"
| "thread_step e (Done r) w = (Done r, w)"

text \<open>
  A schedule names the thread that takes the next step; a thread number that does not
  exist is skipped.
\<close>

fun run :: "env \<Rightarrow> nat list \<Rightarrow> pc list \<times> world \<Rightarrow> pc list \<times> world" where
  "run e [] s = s"
| "run e (t # ts) (pcs, w) =
     (if t < length pcs then
        (case thread_step e (pcs ! t) w of (p, w1) \<Rightarrow> run e ts (pcs[t := p], w1))
      else run e ts (pcs, w))"

text \<open>The object \<open>m\<close> is the result of a constructor call that has returned.\<close>

fun constructed :: "env \<Rightarrow> world \<Rightarrow> yolo \<Rightarrow> bool" where
  "constructed e w (YOLO k) = (k < YOLO_calls w \<and> YOLO_init e k = None)"

text \<open>
  What a thread at a given point may hold: an object to store or to return is a
  constructed one, and a thread past the store finds \<open>_model\<close> set.
\<close>

fun pc_ok :: "env \<Rightarrow> world \<Rightarrow> pc \<Rightarrow> bool" where
  "pc_ok e w (Store m) = constructed e w m"
| "pc_ok e w Return = (model w \<noteq> None)"
| "pc_ok e w (Done (Inr None)) = False"
| "pc_ok e w (Done (Inr (Some m))) = constructed e w m"
| "pc_ok e w p = True"

definition cache_ok :: "env \<Rightarrow> world \<Rightarrow> bool" where
  "cache_ok e w = (case model w of None \<Rightarrow> True | Some m \<Rightarrow> constructed e w m)"

subsection \<open>\<open>predict_ndarray\<close> and \<open>predict_file\<close>\<close>

record box =
  cls :: string
  conf :: real
  x1 :: int
  y1 :: int
  x2 :: int
  y2 :: int

text \<open>The body of the \<open>for .. in zip(xyxy, cls_ids, confs)\<close> loop.\<close>

definition to_box :: "(int \<times> int \<times> int \<times> int) \<times> int \<times> real \<Rightarrow> box" where
  "to_box row =
     (case row of
        ((xa, ya, xb, yb), c_id, c) \<Rightarrow>
          \<lparr>cls = (if 0 \<le> c_id \<and> c_id < int (length CLASS_NAMES) then CLASS_NAMES ! nat c_id
                  else str_int c_id),
           conf = py_round c 4,
           x1 = xa, y1 = ya, x2 = xb, y2 = yb\<rparr>)"

definition to_boxes :: "raw_boxes option list \<Rightarrow> box list" where
  "to_boxes results =
     (case results of
        [] \<Rightarrow> []
      | r # _ \<Rightarrow>
          (case r of
             None \<Rightarrow> []
           | Some bs \<Rightarrow>
               (case xyxy bs of
                  None \<Rightarrow> []
                | Some rows \<Rightarrow> map to_box (zip rows (zip (cls_ids bs) (confs bs))))))"

text \<open>
  \<open>predict_ndarray(img, conf)\<close>. \<open>pre_t\<close> is read after \<open>get_model()\<close> has returned and
  before the resize; the clock is read again after the boxes are built.
\<close>

definition predict_ndarray ::
  "env \<Rightarrow> world \<Rightarrow> ndarray \<Rightarrow> real option \<Rightarrow> (exn + box list \<times> real) \<times> world" where
  "predict_ndarray e w img thr =
     (case get_model e w of
        (Inl x, w1) \<Rightarrow> (Inl x, w1)
      | (Inr m, w1) \<Rightarrow>
          (let pre_t = now w1;
               w2 = w1\<lparr>now := now w1 + cost_resize e img\<rparr>
           in case cv2_resize e img INPUT_SIZE of
                Inl x \<Rightarrow> (Inl x, w2)
              | Inr resized \<Rightarrow>
                  (let t0 = now w2;
                       w3 = w2\<lparr>now := now w2 + cost_predict e resized,
                                detector_calls := Suc (detector_calls w2)\<rparr>
                   in case model_predict e m resized thr of
                        Inl x \<Rightarrow> (Inl x, w3)
                      | Inr results \<Rightarrow>
                          (let inf_ms = (now w3 - t0) * 1000;
                               boxes = to_boxes results;
                               w4 = w3\<lparr>now := now w3 + cost_boxes e results\<rparr>;
                               total_ms = (now w4 - pre_t) * 1000
                           in (Inr (boxes, total_ms), w4)))))"

text \<open>\<open>predict_file(file_bytes, conf)\<close>: decode, then \<open>predict_ndarray\<close>.\<close>

definition predict_file ::
  "env \<Rightarrow> world \<Rightarrow> bytes \<Rightarrow> real option \<Rightarrow> (exn + box list \<times> real) \<times> world" where
  "predict_file e w file_bytes thr =
     (let w1 = w\<lparr>now := now w + cost_decode e file_bytes\<rparr>
      in case Image_open e file_bytes of
           Inl x \<Rightarrow> (Inl x, w1)
         | Inr img \<Rightarrow> predict_ndarray e w1 img thr)"

section \<open>service.py: the request handlers\<close>

text \<open>An uploaded file: its name, its declared content type and its bytes.\<close>

record upload_file =
  filename :: "string option"
  content_type :: "string option"
  content :: bytes

text \<open>
  How a handler ends: with a response body (status 200), with an \<open>HTTPException\<close> of a
  status and a detail, with an exception that leaves the handler, or never.
\<close>

datatype 'a http = Response 'a | HTTPException nat string | Unhandled exn | Hangs

record predict_response =
  response_file :: "string option"
  conf_threshold :: "real option"
  boxes :: "box list"
  latency_ms :: real

record batch_entry =
  entry_filename :: "string option"
  entry_boxes :: "box list"
  entry_latency_ms :: real

record batch_response =
  batch_size :: nat
  results :: "batch_entry list"
  batch_latency_ms :: real
  avg_latency_ms :: real

text \<open>\<open>await file.read()\<close>, taken to succeed: it hands over the bytes of the upload.\<close>

definition read_file :: "world \<Rightarrow> upload_file \<Rightarrow> bytes \<times> world" where
  "read_file w f = (content f, w\<lparr>file_reads := Suc (file_reads w)\<rparr>)"

text \<open>The test of the content type at the head of \<open>predict\<close>.\<close>

definition rejected_content_type :: "upload_file \<Rightarrow> bool" where
  "rejected_content_type f =
     (case content_type f of
        None \<Rightarrow> True
      | Some ct \<Rightarrow> \<not> (startswith ct ''image/'' \<or> startswith ct ''application/octet-stream''))"

text \<open>The row written for one box; the clock is read for the time stamp.\<close>

definition csv_row :: "env \<Rightarrow> world \<Rightarrow> upload_file \<Rightarrow> real \<Rightarrow> box \<Rightarrow> cell list" where
  "csv_row e w f latency b =
     [StrCell (strftime e (now w)),
      (case filename f of None \<Rightarrow> NoneCell | Some n \<Rightarrow> StrCell n),
      StrCell (cls b), FloatCell (conf b), IntCell (x1 b), IntCell (y1 b), IntCell (x2 b),
      IntCell (y2 b),
      FloatCell (py_round latency 3)]"

text \<open>\<open>counts[b["cls"]] = counts.get(b["cls"], 0) + 1\<close> for every box.\<close>

definition count_classes :: "(string \<times> nat) list \<Rightarrow> box list \<Rightarrow> (string \<times> nat) list" where
  "count_classes counts bs =
     foldl (\<lambda>acc b. dict_set acc (cls b) (dict_get acc (cls b) 0 + 1)) counts bs"

text \<open>\<open>{f"class_{k}_count": float(v) for k, v in counts.items()}\<close>.\<close>

definition class_count_metrics :: "(string \<times> nat) list \<Rightarrow> (string \<times> real) list" where
  "class_count_metrics counts =
     dict_update [] (map (\<lambda>(k, v). (''class_'' @ k @ ''_count'', real v)) counts)"

text \<open>\<open>str(conf)\<close> for the optional threshold.\<close>

definition str_conf :: "env \<Rightarrow> real option \<Rightarrow> string" where
  "str_conf e thr = (case thr of None \<Rightarrow> ''None'' | Some c \<Rightarrow> str_float e c)"

definition logged_params :: "env \<Rightarrow> real option \<Rightarrow> (string \<times> string) list" where
  "logged_params e thr =
     [(''conf'', str_conf e thr),
      (''imgsz'', ''640''),
      (''api_workers'', (case API_WORKERS e of None \<Rightarrow> ''1'' | Some v \<Rightarrow> v))]"

text \<open>
  The \<open>try\<close> block of \<open>predict\<close>: read, infer, append the rows to the audit file, count
  the classes, enqueue one item, build the response.
\<close>

definition predict_try ::
  "env \<Rightarrow> world \<Rightarrow> upload_file \<Rightarrow> real option \<Rightarrow> predict_response outcome \<times> world" where
  "predict_try e w f thr =
     (case read_file w f of
        (img_bytes, w1) \<Rightarrow>
          (case predict_file e w1 img_bytes thr of
             (Inl x, w2) \<Rightarrow> (Raises x, w2)
           | (Inr (bs, latency), w2) \<Rightarrow>
               (case sink_open e of
                  Some x \<Rightarrow> (Raises x, w2)
                | None \<Rightarrow>
                    (let w3 = w2\<lparr>predict_log := predict_log w2 @ map (csv_row e w2 f latency) bs\<rparr>;
                         counts = count_classes [] bs
                     in case log_async (tracker w3) ''inference''
                               (dict_update
                                  [(''latency_ms'', latency), (''n_boxes'', real (length bs))]
                                  (class_count_metrics counts))
                               (Some (logged_params e thr)) of
                          (Raises x, t) \<Rightarrow> (Raises x, w3\<lparr>tracker := t\<rparr>)
                        | (Blocks, t) \<Rightarrow> (Blocks, w3\<lparr>tracker := t\<rparr>)
                        | (Returns u, t) \<Rightarrow>
                            (Returns \<lparr>response_file = filename f, conf_threshold = thr, boxes = bs,
                                      latency_ms = py_round latency 3\<rparr>,
                             w3\<lparr>tracker := t\<rparr>)))))"

text \<open>
  \<open>predict(file, conf)\<close>. The content type is tested before the \<open>try\<close>; inside it,
  \<open>except Exception\<close> turns every instance of \<open>Exception\<close> into status 500.
\<close>

definition predict ::
  "env \<Rightarrow> world \<Rightarrow> upload_file \<Rightarrow> real option \<Rightarrow> predict_response http \<times> world" where
  "predict e w f thr =
     (if rejected_content_type f then (HTTPException 400 ''Please upload an image file.'', w)
      else
        (case predict_try e w f thr of
           (Returns r, w1) \<Rightarrow> (Response r, w1)
         | (Raises x, w1) \<Rightarrow>
             (if is_Exception x then (HTTPException 500 ''Prediction failed'', w1)
              else (Unhandled x, w1))
         | (Blocks, w1) \<Rightarrow> (Hangs, w1)))"

text \<open>
  The \<open>for f in files\<close> loop of \<open>predict_batch\<close>, with the list \<open>results\<close>, the
  dictionary \<open>total_counts\<close> and the counter \<open>total_boxes\<close>. Nothing is caught: an
  exception ends the loop and the handler.
\<close>

fun batch_loop ::
  "env \<Rightarrow> real \<Rightarrow> upload_file list \<Rightarrow> batch_entry list \<times> (string \<times> nat) list \<times> nat \<Rightarrow> world
     \<Rightarrow> (exn + batch_entry list \<times> (string \<times> nat) list \<times> nat) \<times> world" where
  "batch_loop e thr [] acc w = (Inr acc, w)"
| "batch_loop e thr (f # fs) (res, total_counts, total_boxes) w =
     (case read_file w f of
        (bts, w1) \<Rightarrow>
          (case predict_file e w1 bts (Some thr) of
             (Inl x, w2) \<Rightarrow> (Inl x, w2)
           | (Inr (bs, latency), w2) \<Rightarrow>
               batch_loop e thr fs
                 (res @ [\<lparr>entry_filename = filename f, entry_boxes = bs,
                          entry_latency_ms = latency\<rparr>],
                  count_classes total_counts bs,
                  total_boxes + length bs)
                 w2))"

text \<open>\<open>predict_batch(files, conf)\<close>.\<close>

definition predict_batch ::
  "env \<Rightarrow> world \<Rightarrow> upload_file list \<Rightarrow> real \<Rightarrow> batch_response http \<times> world" where
  "predict_batch e w files thr =
     (let t0 = now w
      in case batch_loop e thr files ([], [], 0) w of
           (Inl x, w1) \<Rightarrow> (Unhandled x, w1)
         | (Inr (res, total_counts, total_boxes), w1) \<Rightarrow>
             (let elapsed = (now w1 - t0) * 1000;
                  avg_latency = elapsed / real (max 1 (length files))
              in case log_async (tracker w1) ''batch_inference''
                        (dict_update
                           [(''batch_latency_ms'', py_round elapsed 2),
                            (''avg_latency_ms'', py_round avg_latency 2),
                            (''batch_size'', real (length files)),
                            (''n_boxes_total'', real total_boxes)]
                           (class_count_metrics total_counts))
                        (Some (logged_params e (Some thr))) of
                   (Raises x, t) \<Rightarrow> (Unhandled x, w1\<lparr>tracker := t\<rparr>)
                 | (Blocks, t) \<Rightarrow> (Hangs, w1\<lparr>tracker := t\<rparr>)
                 | (Returns u, t) \<Rightarrow>
                     (Response \<lparr>batch_size = length files, results = res,
                                batch_latency_ms = py_round elapsed 2,
                                avg_latency_ms = py_round avg_latency 2\<rparr>,
                      w1\<lparr>tracker := t\<rparr>)))"

text \<open>The body of a response with status 200, if the handler ended with one.\<close>

fun the_response :: "'a http \<Rightarrow> 'a option" where
  "the_response (Response r) = Some r"
| "the_response other = None"

section \<open>Concrete collaborators and inputs\<close>

text \<open>
  A stubbed environment: every non-empty upload decodes, the constructor never fails, the
  detector reports one box of class 6 with confidence 0.99; decoding takes a third of a
  millisecond, loading 3 ms, resizing 1 ms, detection 20 ms and box mapping half a
  millisecond.
\<close>

definition stub_env :: env where
  "stub_env =
     \<lparr>Image_open = (\<lambda>bts. if bts = [] then Inl (Exception ''UnidentifiedImageError'')
                           else Inr (NdArray 320 320 [])),
      YOLO_init = (\<lambda>k. None),
      cv2_resize = (\<lambda>img n. Inr (NdArray n n [])),
      model_predict = (\<lambda>m img thr.
         Inr [Some \<lparr>xyxy = Some [(10, 10, 100, 100)], cls_ids = [6], confs = [99 / 100]\<rparr>]),
      cost_decode = (\<lambda>bts. 1 / 3000),
      cost_load = (\<lambda>k. 3 / 1000),
      cost_resize = (\<lambda>img. 1 / 1000),
      cost_predict = (\<lambda>img. 1 / 50),
      cost_boxes = (\<lambda>rs. 1 / 2000),
      API_WORKERS = None,
      sink_open = None,
      strftime = (\<lambda>t. ''2025-01-01 00:00:00''),
      str_float = (\<lambda>x. ''0.25'')\<rparr>"

text \<open>The process after start-up, with a tracking backend configured or not.\<close>

definition fresh_world :: "string option \<Rightarrow> world" where
  "fresh_world uri =
     \<lparr>now = 0, model = None, tracker = (mltrack_import uri None)\<lparr>started := True\<rparr>,
      predict_log = [], YOLO_calls = 0, detector_calls = 0, file_reads = 0\<rparr>"

definition png :: "string \<Rightarrow> upload_file" where
  "png n = \<lparr>filename = Some n, content_type = Some ''image/png'', content = ''PNG''\<rparr>"

definition text_file :: upload_file where
  "text_file = \<lparr>filename = Some ''notes.txt'', content_type = Some ''text/plain'',
                 content = ''hello''\<rparr>"

text \<open>The same, but the weights file is missing at the first constructor call.\<close>

definition missing_weights_env :: env where
  "missing_weights_env =
     stub_env\<lparr>YOLO_init := (\<lambda>k. if k = 0 then Some (Exception ''FileNotFoundError'') else None)\<rparr>"

text \<open>The box the stubbed detector reports, and a batch of three uploads.\<close>

definition stub_box :: box where
  "stub_box = \<lparr>cls = ''Danger Ahead'', conf = 99 / 100, x1 = 10, y1 = 10, x2 = 100, y2 = 100\<rparr>"

definition stub_batch :: "upload_file list" where
  "stub_batch = [png ''a.png'', png ''b.png'', png ''c.png'']"

text \<open>What the batch handler answers for this batch in the stubbed environment.\<close>

definition stub_batch_result :: batch_response where
  "stub_batch_result =
     \<lparr>batch_size = 3,
      results =
        [\<lparr>entry_filename = Some ''a.png'', entry_boxes = [stub_box], entry_latency_ms = 43 / 2\<rparr>,
         \<lparr>entry_filename = Some ''b.png'', entry_boxes = [stub_box], entry_latency_ms = 43 / 2\<rparr>,
         \<lparr>entry_filename = Some ''c.png'', entry_boxes = [stub_box], entry_latency_ms = 43 / 2\<rparr>],
      batch_latency_ms = 137 / 2,
      avg_latency_ms = 2283 / 100\<rparr>"

section \<open>Properties of the bounded asynchronous logger\<close>

subsection \<open>Enqueueing\<close>

lemma log_async_returns: "fst (log_async s rn ms ps) = Returns ()"
  by (simp add: log_async_def put_nowait_def put_def)

text \<open>
  Claim C1. Every call of \<open>log_async\<close> returns: it neither raises nor parks the caller.
  With no backend configured (\<open>_MLFLOW_URI\<close> unset or empty) the module state, and so the
  queue, is left as it was. With a backend configured and the queue of capacity 10000
  full, the event is dropped: the state is again left as it was.
\<close>

theorem log_async_noop_or_drop:
  "fst (log_async s rn ms ps) = Returns () \<and>
   (falsy (MLFLOW_URI s) \<longrightarrow> log_async s rn ms ps = (Returns (), s)) \<and>
   (\<not> falsy (MLFLOW_URI s) \<and> maxsize (q s) = 10000 \<and> length (items (q s)) = 10000
      \<longrightarrow> log_async s rn ms ps = (Returns (), s))"
proof (intro conjI impI)
  show "fst (log_async s rn ms ps) = Returns ()"
    by (rule log_async_returns)
next
  assume "falsy (MLFLOW_URI s)"
  then show "log_async s rn ms ps = (Returns (), s)"
    by (simp add: log_async_def)
next
  assume full: "\<not> falsy (MLFLOW_URI s) \<and> maxsize (q s) = 10000 \<and> length (items (q s)) = 10000"
  then have "put_nowait (q s) x = Raises (Exception ''Full'')" for x
    by (simp add: put_nowait_def put_def)
  with full show "log_async s rn ms ps = (Returns (), s)"
    by (simp add: log_async_def)
qed

theorem log_async_noop_or_drop_witness:
  "falsy (MLFLOW_URI (mltrack_import None None)) \<and>
   log_async (mltrack_import None None) ''inference'' [(''n_boxes'', 1)] None =
     (Returns (), mltrack_import None None) \<and>
   (\<not> falsy (MLFLOW_URI full_mltrack) \<and> maxsize (q full_mltrack) = 10000 \<and>
    length (items (q full_mltrack)) = 10000) \<and>
   log_async full_mltrack ''inference'' [(''n_boxes'', 1)] None = (Returns (), full_mltrack)"
proof -
  have off: "falsy (MLFLOW_URI (mltrack_import None None))"
    by (simp add: mltrack_import_def)
  have full: "\<not> falsy (MLFLOW_URI full_mltrack) \<and> maxsize (q full_mltrack) = 10000 \<and>
    length (items (q full_mltrack)) = 10000"
    by (simp add: full_mltrack_def)
  show ?thesis
    using off full
      log_async_noop_or_drop [of "mltrack_import None None" "''inference''" "[(''n_boxes'', 1)]" None]
      log_async_noop_or_drop [of full_mltrack "''inference''" "[(''n_boxes'', 1)]" None]
    by blast
qed

text \<open>
  With a backend configured and room in the queue, the item goes to the tail, and the
  queue's counter of unfinished tasks keeps covering the queued items.
\<close>

lemma log_async_enqueues_at_tail:
  assumes "\<not> falsy (MLFLOW_URI s)" and "length (items (q s)) < maxsize (q s)"
  shows "log_async s rn ms (Some ps) =
           (Returns (),
            s\<lparr>q := (q s)\<lparr>items := items (q s) @ [Some \<lparr>run_name = rn, metrics = ms, params = ps\<rparr>],
                          unfinished_tasks := Suc (unfinished_tasks (q s))\<rparr>\<rparr>)"
  using assms by (simp add: log_async_def put_nowait_def put_def)

lemma log_async_unfinished:
  assumes "length (items (q s)) \<le> unfinished_tasks (q s)"
  shows "length (items (q (snd (log_async s rn ms ps)))) \<le>
           unfinished_tasks (q (snd (log_async s rn ms ps)))"
  using assms by (simp add: log_async_def put_nowait_def put_def)

subsection \<open>The worker loop\<close>

lemma log_metrics_Exception:
  "raises_only_Exception be \<Longrightarrow> log_metrics be b kvs = (Some e, b') \<Longrightarrow> is_Exception e"
proof (induction kvs arbitrary: b)
  case Nil
  then show ?case by simp
next
  case (Cons kv kvs)
  obtain k v where kv: "kv = (k, v)" by (cases kv)
  show ?case
  proof (cases "log_metric be b k v")
    case (Pair r b1)
    show ?thesis
    proof (cases r)
      case None
      with Pair Cons.prems kv have "log_metrics be b1 kvs = (Some e, b')" by simp
      with Cons.IH Cons.prems(1) show ?thesis by blast
    next
      case (Some e1)
      with Pair Cons.prems kv have "e1 = e" by simp
      with Some Pair Cons.prems(1) show ?thesis
        unfolding raises_only_Exception_def by blast
    qed
  qed
qed

lemma log_params_Exception:
  "raises_only_Exception be \<Longrightarrow> log_params be b kvs = (Some e, b') \<Longrightarrow> is_Exception e"
proof (induction kvs arbitrary: b)
  case Nil
  then show ?case by simp
next
  case (Cons kv kvs)
  obtain k v where kv: "kv = (k, v)" by (cases kv)
  show ?case
  proof (cases "log_param be b k v")
    case (Pair r b1)
    show ?thesis
    proof (cases r)
      case None
      with Pair Cons.prems kv have "log_params be b1 kvs = (Some e, b')" by simp
      with Cons.IH Cons.prems(1) show ?thesis by blast
    next
      case (Some e1)
      with Pair Cons.prems kv have "e1 = e" by simp
      with Some Pair Cons.prems(1) show ?thesis
        unfolding raises_only_Exception_def by blast
    qed
  qed
qed

lemma forward_Exception:
  assumes be: "raises_only_Exception be" and f: "forward be b it = (Some e, b')"
  shows "is_Exception e"
proof -
  have sr: "start_run be b n = (Some x, c) \<Longrightarrow> is_Exception x" for b n x c
    using be unfolding raises_only_Exception_def by blast
  have er: "end_run be b ok = (Some x, c) \<Longrightarrow> is_Exception x" for b ok x c
    using be unfolding raises_only_Exception_def by blast
  note lm = log_metrics_Exception [OF be] and lp = log_params_Exception [OF be]
  from f show ?thesis
    unfolding forward_def
    by (auto split: prod.splits option.splits dest: sr er lm lp)
qed

lemma worker_iteration_Some:
  assumes be: "raises_only_Exception be"
    and its: "items qu = Some ev # xs"
    and unf: "0 < unfinished_tasks qu"
  shows "worker_iteration be b qu =
           Continue (snd (forward be b ev))
             (qu\<lparr>items := xs, unfinished_tasks := unfinished_tasks qu - 1\<rparr>)"
proof (cases "forward be b ev")
  case (Pair r b1)
  have caught: "r = Some e \<Longrightarrow> is_Exception e" for e
    using forward_Exception [OF be] Pair by blast
  from its unf Pair caught show ?thesis
    by (auto simp: worker_iteration_def get_def task_done_def split: option.splits)
qed

lemma worker_iteration_None:
  "items qu = None # xs \<Longrightarrow> worker_iteration be b qu = Break b (qu\<lparr>items := xs\<rparr>)"
  by (simp add: worker_iteration_def get_def)

lemma worker_iteration_empty:
  "items qu = [] \<Longrightarrow> worker_iteration be b qu = Wait"
  by (simp add: worker_iteration_def get_def)

text \<open>
  Claim C2. Let the queue hold the events \<open>evs\<close>, followed by nothing or by the stop
  item \<open>None\<close>, and let the backend fail, whenever it fails, with instances of
  \<open>Exception\<close>. Then no failure ends the loop or reaches its caller: the worker takes
  the events one at a time from the head, so that the backend sees one transaction
  (\<open>forward\<close>) per event, in queue order and whether or not earlier ones failed, and
  the worker ends parked in \<open>get\<close> on the emptied queue, or returned at the stop item.
\<close>

theorem worker_loop_swallows_fifo:
  assumes be: "raises_only_Exception be"
    and its: "items qu = map Some evs @ rest"
    and rest: "rest = [] \<or> hd rest = None"
    and unf: "length evs \<le> unfinished_tasks qu"
  shows "worker_loop be b qu =
           (if rest = [] then Waiting else Returned)
             (foldl (\<lambda>b' ev. snd (forward be b' ev)) b evs)
             (qu\<lparr>items := tl rest, unfinished_tasks := unfinished_tasks qu - length evs\<rparr>)"
  using its unf
proof (induction evs arbitrary: b qu)
  case Nil
  show ?case
  proof (cases rest)
    case Nil
    with Nil.prems have "items qu = []" by simp
    then have "worker_iteration be b qu = Wait" by (rule worker_iteration_empty)
    with Nil \<open>items qu = []\<close> show ?thesis
      by (simp add: worker_loop.simps [of be b qu])
  next
    case (Cons x xs)
    with rest have "x = None" by simp
    with Cons Nil.prems have "items qu = None # xs" by simp
    then have "worker_iteration be b qu = Break b (qu\<lparr>items := xs\<rparr>)"
      by (rule worker_iteration_None)
    with Cons show ?thesis
      by (simp add: worker_loop.simps [of be b qu])
  qed
next
  case (Cons ev evs)
  let ?b1 = "snd (forward be b ev)"
  let ?qu1 = "qu\<lparr>items := map Some evs @ rest, unfinished_tasks := unfinished_tasks qu - 1\<rparr>"
  from Cons.prems have its': "items qu = Some ev # (map Some evs @ rest)"
    and pos: "0 < unfinished_tasks qu" by simp_all
  have step: "worker_iteration be b qu = Continue ?b1 ?qu1"
    by (rule worker_iteration_Some [OF be its' pos])
  have "worker_loop be b qu = worker_loop be ?b1 ?qu1"
    by (simp add: worker_loop.simps [of be b qu] step)
  also have "\<dots> = (if rest = [] then Waiting else Returned)
             (foldl (\<lambda>b' ev. snd (forward be b' ev)) ?b1 evs)
             (?qu1\<lparr>items := tl rest, unfinished_tasks := unfinished_tasks ?qu1 - length evs\<rparr>)"
    using Cons.prems by (intro Cons.IH) simp_all
  finally show ?case by simp
qed

theorem worker_loop_swallows_fifo_witness:
  "raises_only_Exception flaky_backend \<and>
   worker_loop flaky_backend []
     \<lparr>maxsize = 10000,
      items = [Some \<lparr>run_name = ''inference'', metrics = [(''bad'', 1)], params = []\<rparr>,
               Some \<lparr>run_name = ''batch_inference'', metrics = [(''n_boxes'', 2)],
                     params = [(''conf'', ''0.25'')]\<rparr>],
      unfinished_tasks = 2\<rparr> =
   Waiting [''start_run inference'', ''end_run FAILED'',
            ''start_run batch_inference'', ''log_metric n_boxes'', ''log_param conf=0.25'',
            ''end_run FINISHED'']
     \<lparr>maxsize = 10000, items = [], unfinished_tasks = 0\<rparr>"
proof -
  have be: "raises_only_Exception flaky_backend"
    by (simp add: raises_only_Exception_def flaky_backend_def)
  show ?thesis
    using be worker_loop_swallows_fifo [OF be, of
        "\<lparr>maxsize = 10000,
      items = [Some \<lparr>run_name = ''inference'', metrics = [(''bad'', 1)], params = []\<rparr>,
               Some \<lparr>run_name = ''batch_inference'', metrics = [(''n_boxes'', 2)],
                     params = [(''conf'', ''0.25'')]\<rparr>],
      unfinished_tasks = 2\<rparr>"
        "[\<lparr>run_name = ''inference'', metrics = [(''bad'', 1)], params = []\<rparr>,
          \<lparr>run_name = ''batch_inference'', metrics = [(''n_boxes'', 2)],
                     params = [(''conf'', ''0.25'')]\<rparr>]" "[]" "[]"]
    by (simp add: forward_def flaky_backend_def)
qed

section \<open>Properties of the model handle and the orchestrator\<close>

subsection \<open>The model handle\<close>

lemma get_model_cached: "model w = Some m \<Longrightarrow> get_model e w = (Inr m, w)"
  by (simp add: get_model_def)

lemma get_model_loads:
  "model w = None \<Longrightarrow> YOLO_init e (YOLO_calls w) = None \<Longrightarrow>
   get_model e w =
     (Inr (YOLO (YOLO_calls w)),
      w\<lparr>YOLO_calls := Suc (YOLO_calls w), now := now w + cost_load e (YOLO_calls w),
        model := Some (YOLO (YOLO_calls w))\<rparr>)"
  by (simp add: get_model_def Let_def)

lemma get_model_fails:
  "model w = None \<Longrightarrow> YOLO_init e (YOLO_calls w) = Some x \<Longrightarrow>
   get_model e w =
     (Inl x, w\<lparr>YOLO_calls := Suc (YOLO_calls w), now := now w + cost_load e (YOLO_calls w)\<rparr>)"
  by (simp add: get_model_def Let_def)

text \<open>
  Claim C4. When the constructor raises during a call of \<open>get_model\<close> on an unset
  \<open>_model\<close>, the call raises that exception and \<open>_model\<close> is still unset; the next call
  runs the constructor again, and returns the new object or raises according to how that
  second constructor call ends.
\<close>

theorem get_model_failure_not_cached:
  assumes "model w = None" and "YOLO_init e (YOLO_calls w) = Some x"
  shows "fst (get_model e w) = Inl x \<and>
         model (snd (get_model e w)) = None \<and>
         YOLO_calls (snd (get_model e w)) = Suc (YOLO_calls w) \<and>
         fst (get_model e (snd (get_model e w))) =
           (case YOLO_init e (Suc (YOLO_calls w)) of
              None \<Rightarrow> Inr (YOLO (Suc (YOLO_calls w)))
            | Some x' \<Rightarrow> Inl x')"
proof -
  let ?w1 = "w\<lparr>YOLO_calls := Suc (YOLO_calls w), now := now w + cost_load e (YOLO_calls w)\<rparr>"
  have first: "get_model e w = (Inl x, ?w1)"
    using assms by (rule get_model_fails)
  have unset: "model ?w1 = None" using assms(1) by simp
  have "fst (get_model e ?w1) =
      (case YOLO_init e (Suc (YOLO_calls w)) of
         None \<Rightarrow> Inr (YOLO (Suc (YOLO_calls w)))
       | Some x' \<Rightarrow> Inl x')"
  proof (cases "YOLO_init e (Suc (YOLO_calls w))")
    case None
    then show ?thesis using get_model_loads [OF unset] by simp
  next
    case (Some x')
    then show ?thesis using get_model_fails [OF unset] by simp
  qed
  with first unset show ?thesis by simp
qed

theorem get_model_failure_not_cached_witness:
  "model (fresh_world None) = None \<and>
   YOLO_init missing_weights_env (YOLO_calls (fresh_world None)) =
     Some (Exception ''FileNotFoundError'') \<and>
   fst (get_model missing_weights_env (fresh_world None)) = Inl (Exception ''FileNotFoundError'') \<and>
   model (snd (get_model missing_weights_env (fresh_world None))) = None \<and>
   fst (get_model missing_weights_env (snd (get_model missing_weights_env (fresh_world None)))) =
     Inr (YOLO 1)"
proof -
  have a: "model (fresh_world None) = None"
    by (simp add: fresh_world_def)
  have b: "YOLO_init missing_weights_env (YOLO_calls (fresh_world None)) =
     Some (Exception ''FileNotFoundError'')"
    by (simp add: fresh_world_def missing_weights_env_def stub_env_def)
  have c: "YOLO_init missing_weights_env (Suc 0) = None"
    by (simp add: missing_weights_env_def stub_env_def)
  have d: "YOLO_calls (fresh_world None) = 0"
    by (simp add: fresh_world_def)
  show ?thesis
    using a b get_model_failure_not_cached [OF a b] by (simp add: c d)
qed

subsection \<open>Callers of \<open>get_model\<close>, one after the other and interleaved\<close>

lemma constructed_mono:
  "constructed e w m \<Longrightarrow> YOLO_calls w \<le> YOLO_calls w' \<Longrightarrow> constructed e w' m"
  by (cases m) simp

lemma pc_ok_mono:
  assumes "pc_ok e w p" and "YOLO_calls w \<le> YOLO_calls w'"
    and "model w \<noteq> None \<Longrightarrow> model w' \<noteq> None"
  shows "pc_ok e w' p"
  using assms by (induction e w p rule: pc_ok.induct) (auto intro: constructed_mono)

lemma thread_step_grows:
  "thread_step e p w = (p', w') \<Longrightarrow>
   YOLO_calls w \<le> YOLO_calls w' \<and> (model w \<noteq> None \<longrightarrow> model w' \<noteq> None)"
  by (cases p) (auto simp: Let_def split: option.splits if_splits)

lemma thread_step_pc_ok:
  assumes "thread_step e p w = (p', w')" and "pc_ok e w p" and "cache_ok e w"
  shows "pc_ok e w' p' \<and> cache_ok e w'"
proof (cases p)
  case Test
  with assms show ?thesis by (auto split: if_splits)
next
  case Load
  with assms show ?thesis
    by (auto simp: Let_def cache_ok_def split: option.splits intro: constructed_mono)
next
  case (Store m)
  with assms show ?thesis by (cases m) (auto simp: cache_ok_def)
next
  case Return
  with assms show ?thesis by (auto simp: cache_ok_def split: option.splits)
next
  case (Done r)
  with assms show ?thesis by auto
qed

lemma run_invariant:
  assumes "cache_ok e w" and "\<forall>p \<in> set pcs. pc_ok e w p"
  shows "cache_ok e (snd (run e sched (pcs, w))) \<and>
         (\<forall>p \<in> set (fst (run e sched (pcs, w))). pc_ok e (snd (run e sched (pcs, w))) p)"
  using assms
proof (induction sched arbitrary: pcs w)
  case Nil
  then show ?case by simp
next
  case (Cons t ts)
  show ?case
  proof (cases "t < length pcs")
    case False
    with Cons show ?thesis by simp
  next
    case True
    obtain p w1 where step: "thread_step e (pcs ! t) w = (p, w1)"
      by (cases "thread_step e (pcs ! t) w")
    from True Cons.prems have okt: "pc_ok e w (pcs ! t)" by simp
    from thread_step_pc_ok [OF step okt Cons.prems(1)]
    have p: "pc_ok e w1 p" and c: "cache_ok e w1" by simp_all
    from thread_step_grows [OF step]
    have g: "YOLO_calls w \<le> YOLO_calls w1" "model w \<noteq> None \<Longrightarrow> model w1 \<noteq> None"
      by simp_all
    have others: "\<forall>p' \<in> set (pcs[t := p]). pc_ok e w1 p'"
    proof
      fix p' assume "p' \<in> set (pcs[t := p])"
      then have "p' = p \<or> p' \<in> set pcs"
        using set_update_subset_insert [of pcs t p] by auto
      then show "pc_ok e w1 p'"
        using p Cons.prems(2) g by (auto intro: pc_ok_mono)
    qed
    have "run e (t # ts) (pcs, w) = run e ts (pcs[t := p], w1)"
      using True step by simp
    with Cons.IH [OF c others] show ?thesis by simp
  qed
qed

lemma length_run: "length (fst (run e sched (pcs, w))) = length pcs"
proof (induction sched arbitrary: pcs w)
  case Nil
  then show ?case by simp
next
  case (Cons t ts)
  then show ?case by (auto split: prod.splits)
qed

lemma get_model_calls_cached:
  "model w = Some m \<Longrightarrow> get_model_calls e n w = (replicate n (Inr m), w)"
  by (induction n) (simp_all add: get_model_cached)

text \<open>One thread running alone does what \<open>get_model\<close> does.\<close>

lemma run_alone_is_get_model:
  "run e [0, 0, 0, 0] ([Test], w) =
     ([Done (map_sum id Some (fst (get_model e w)))], snd (get_model e w))"
  by (auto simp: get_model_def Let_def split: option.splits)

text \<open>
  What \<open>get_model\<close> does achieve. Callers that run one after the other (each call
  returns before the next starts) and a constructor that succeeds: one load, and every
  caller gets that one object. Callers that interleave in any way: a caller that returns
  a value returns an object whose constructor call has completed, never an unset or
  half-built handle.
\<close>

lemma get_model_loads_once_when_sequential:
  assumes unset: "model w = None"
  shows "(YOLO_init e (YOLO_calls w) = None \<and> 0 < n \<longrightarrow>
            fst (get_model_calls e n w) = replicate n (Inr (YOLO (YOLO_calls w))) \<and>
            YOLO_calls (snd (get_model_calls e n w)) = Suc (YOLO_calls w)) \<and>
         (\<forall>t r. t < n \<and> fst (run e sched (replicate n Test, w)) ! t = Done (Inr r) \<longrightarrow>
            (\<exists>m. r = Some m \<and> constructed e (snd (run e sched (replicate n Test, w))) m))"
proof (intro conjI impI allI)
  assume a: "YOLO_init e (YOLO_calls w) = None \<and> 0 < n"
  then obtain k where n: "n = Suc k" by (cases n) auto
  let ?m = "YOLO (YOLO_calls w)"
  let ?w1 = "w\<lparr>YOLO_calls := Suc (YOLO_calls w), now := now w + cost_load e (YOLO_calls w),
        model := Some ?m\<rparr>"
  have first: "get_model e w = (Inr ?m, ?w1)"
    using unset a by (simp add: get_model_loads)
  have rest: "get_model_calls e k ?w1 = (replicate k (Inr ?m), ?w1)"
    by (rule get_model_calls_cached) simp
  from first rest n
  show "fst (get_model_calls e n w) = replicate n (Inr (YOLO (YOLO_calls w)))"
    and "YOLO_calls (snd (get_model_calls e n w)) = Suc (YOLO_calls w)"
    by simp_all
next
  fix t r
  let ?s = "run e sched (replicate n Test, w)"
  assume a: "t < n \<and> fst ?s ! t = Done (Inr r)"
  have c0: "cache_ok e w" using unset by (simp add: cache_ok_def)
  have p0: "\<forall>p \<in> set (replicate n Test). pc_ok e w p" by simp
  from run_invariant [OF c0 p0, of sched]
  have all: "\<forall>p \<in> set (fst ?s). pc_ok e (snd ?s) p" by simp
  have "length (fst ?s) = n" by (simp add: length_run)
  with a have "t < length (fst ?s)" by simp
  then have "fst ?s ! t \<in> set (fst ?s)" by (rule nth_mem)
  with all a have ok: "pc_ok e (snd ?s) (Done (Inr r))" by metis
  then show "\<exists>m. r = Some m \<and> constructed e (snd ?s) m"
    by (cases r) simp_all
qed

lemma get_model_loads_once_when_sequential_example:
  "model (fresh_world None) = None \<and>
   (YOLO_init stub_env (YOLO_calls (fresh_world None)) = None \<and> 0 < (3::nat)) \<and>
   fst (get_model_calls stub_env 3 (fresh_world None)) =
     [Inr (YOLO 0), Inr (YOLO 0), Inr (YOLO 0)] \<and>
   YOLO_calls (snd (get_model_calls stub_env 3 (fresh_world None))) = 1 \<and>
   (2 < (3::nat) \<and>
    fst (run stub_env [0, 1, 2, 2, 2, 2, 0, 0, 0, 1, 1, 1] (replicate 3 Test, fresh_world None)) ! 2
      = Done (Inr (Some (YOLO 0)))) \<and>
   constructed stub_env
     (snd (run stub_env [0, 1, 2, 2, 2, 2, 0, 0, 0, 1, 1, 1] (replicate 3 Test, fresh_world None)))
     (YOLO 0)"
proof -
  let ?sched = "[0, 1, 2, 2, 2, 2, 0, 0, 0, 1, 1, 1] :: nat list"
  have a: "model (fresh_world None) = None"
    by (simp add: fresh_world_def)
  have b: "YOLO_init stub_env (YOLO_calls (fresh_world None)) = None \<and> 0 < (3::nat)"
    by (simp add: stub_env_def)
  have c: "YOLO_calls (fresh_world None) = 0"
    by (simp add: fresh_world_def)
  have r3: "replicate 3 x = [x, x, x]" for x :: 'a
    by (simp add: numeral_3_eq_3)
  have d: "2 < (3::nat) \<and>
    fst (run stub_env ?sched (replicate 3 Test, fresh_world None)) ! 2
      = Done (Inr (Some (YOLO 0)))"
    by (simp add: r3 stub_env_def fresh_world_def Let_def)
  note T = get_model_loads_once_when_sequential [OF a, of stub_env 3 ?sched]
  from T b have seq:
    "fst (get_model_calls stub_env 3 (fresh_world None)) =
       replicate 3 (Inr (YOLO (YOLO_calls (fresh_world None))))"
    "YOLO_calls (snd (get_model_calls stub_env 3 (fresh_world None))) =
       Suc (YOLO_calls (fresh_world None))"
    by blast+
  from T d have "\<exists>m. Some (YOLO 0) = Some m \<and>
      constructed stub_env (snd (run stub_env ?sched (replicate 3 Test, fresh_world None))) m"
    by blast
  then have con:
    "constructed stub_env (snd (run stub_env ?sched (replicate 3 Test, fresh_world None))) (YOLO 0)"
    by (metis option.inject)
  have s1: "fst (get_model_calls stub_env 3 (fresh_world None)) =
     [Inr (YOLO 0), Inr (YOLO 0), Inr (YOLO 0)]"
    unfolding seq(1) c r3 ..
  have s2: "YOLO_calls (snd (get_model_calls stub_env 3 (fresh_world None))) = 1"
    unfolding seq(2) c by simp
  from a b s1 s2 d con show ?thesis by blast
qed

text \<open>
  Claim C3: for concurrent first-time callers of \<open>get_model\<close>, exactly one load occurs
  and all callers observe the same instance. The code means \<open>_model\<close> to be a lazy
  singleton and guards the load with \<open>if _model is None\<close>, but takes no lock between
  the test and the store. Two callers (two \<open>/warmup\<close> requests in the thread pool, say)
  that both test \<open>_model\<close> before either has stored: the constructor runs twice, and
  the two callers return different objects.
\<close>

theorem get_model_concurrent_first_use_loads_twice:
  "fst (run stub_env [0, 1, 0, 0, 0, 1, 1, 1] ([Test, Test], fresh_world None)) =
     [Done (Inr (Some (YOLO 0))), Done (Inr (Some (YOLO 1)))] \<and>
   YOLO_calls (snd (run stub_env [0, 1, 0, 0, 0, 1, 1, 1] ([Test, Test], fresh_world None))) = 2"
  by (simp add: stub_env_def fresh_world_def Let_def)

subsection \<open>Decimal strings\<close>

lemma digit_val_digit: "d < 10 \<Longrightarrow> digit_val (digit d) = d"
proof -
  assume "d < 10"
  then have "d \<in> {0, 1, 2, 3, 4, 5, 6, 7, 8, 9}" by auto
  then show ?thesis
    by (auto simp: digit_def digit_val_def)
qed

lemma digit_not_minus: "d < 10 \<Longrightarrow> digit d \<noteq> CHR ''-''"
proof -
  assume "d < 10"
  then have "d \<in> {0, 1, 2, 3, 4, 5, 6, 7, 8, 9}" by auto
  then show ?thesis
    by (auto simp: digit_def)
qed

lemma str_nat_value: "foldl (\<lambda>a d. 10 * a + digit_val d) 0 (str_nat n) = n"
proof (induction n rule: str_nat.induct)
  case (1 n)
  show ?case
  proof (cases "n < 10")
    case True
    then show ?thesis by (simp add: str_nat.simps [of n] digit_val_digit)
  next
    case False
    with 1 have "foldl (\<lambda>a d. 10 * a + digit_val d) 0 (str_nat (n div 10)) = n div 10"
      by simp
    with False show ?thesis
      by (simp add: str_nat.simps [of n] digit_val_digit)
  qed
qed

lemma str_nat_head: "\<exists>c cs. str_nat n = c # cs \<and> c \<noteq> CHR ''-''"
proof (induction n rule: str_nat.induct)
  case (1 n)
  show ?case
  proof (cases "n < 10")
    case True
    then show ?thesis by (simp add: str_nat.simps [of n] digit_not_minus)
  next
    case False
    with 1 obtain c cs where "str_nat (n div 10) = c # cs" "c \<noteq> CHR ''-''" by blast
    with False show ?thesis by (simp add: str_nat.simps [of n])
  qed
qed

lemma int_of_str_str_int: "int_of_str (str_int i) = i"
proof (cases "i < 0")
  case True
  then show ?thesis
    by (simp add: int_of_str_def str_int_def str_nat_value)
next
  case False
  obtain c cs where h: "str_nat (nat i) = c # cs" "c \<noteq> CHR ''-''"
    using str_nat_head by blast
  have "foldl (\<lambda>a d. 10 * a + digit_val d) 0 (str_nat (nat i)) = nat i"
    by (rule str_nat_value)
  with h False show ?thesis
    by (simp add: int_of_str_def str_int_def)
qed

subsection \<open>Box mapping\<close>

lemma length_CLASS_NAMES: "length CLASS_NAMES = 10"
  by (simp add: CLASS_NAMES_def)

lemma cls_to_box:
  "cls (to_box (r, c_id, c)) =
     (if 0 \<le> c_id \<and> c_id < int (length CLASS_NAMES) then CLASS_NAMES ! nat c_id
      else str_int c_id)"
  by (cases r) (simp add: to_box_def)

text \<open>
  Claim C6. Box mapping has no failing branch: for the rows of a detector result it
  produces one box per zipped row. The class name of the \<open>i\<close>-th box is the configured
  name at the row's class index when the index is at least 0 and below the number of
  configured names, and otherwise the decimal string of the index, that is, the string
  that reads back as the index.
\<close>

theorem unknown_class_index_falls_back:
  "length (to_boxes (Some \<lparr>xyxy = Some rows, cls_ids = cs, confs = fs\<rparr> # rest)) =
     min (length rows) (min (length cs) (length fs)) \<and>
   (\<forall>i < min (length rows) (min (length cs) (length fs)).
      cls (to_boxes (Some \<lparr>xyxy = Some rows, cls_ids = cs, confs = fs\<rparr> # rest) ! i) =
        (if 0 \<le> cs ! i \<and> cs ! i < int (length CLASS_NAMES) then CLASS_NAMES ! nat (cs ! i)
         else str_int (cs ! i)) \<and>
      int_of_str (str_int (cs ! i)) = cs ! i)"
proof (rule conjI)
  show "length (to_boxes (Some \<lparr>xyxy = Some rows, cls_ids = cs, confs = fs\<rparr> # rest)) =
     min (length rows) (min (length cs) (length fs))"
    by (simp add: to_boxes_def)
next
  show "\<forall>i < min (length rows) (min (length cs) (length fs)).
      cls (to_boxes (Some \<lparr>xyxy = Some rows, cls_ids = cs, confs = fs\<rparr> # rest) ! i) =
        (if 0 \<le> cs ! i \<and> cs ! i < int (length CLASS_NAMES) then CLASS_NAMES ! nat (cs ! i)
         else str_int (cs ! i)) \<and>
      int_of_str (str_int (cs ! i)) = cs ! i"
  proof (intro allI impI)
    fix i
    assume i: "i < min (length rows) (min (length cs) (length fs))"
    then have row: "to_boxes (Some \<lparr>xyxy = Some rows, cls_ids = cs, confs = fs\<rparr> # rest) ! i =
        to_box (rows ! i, cs ! i, fs ! i)"
      by (simp add: to_boxes_def)
    have reads: "int_of_str (str_int (cs ! i)) = cs ! i"
      by (rule int_of_str_str_int)
    show "cls (to_boxes (Some \<lparr>xyxy = Some rows, cls_ids = cs, confs = fs\<rparr> # rest) ! i) =
        (if 0 \<le> cs ! i \<and> cs ! i < int (length CLASS_NAMES) then CLASS_NAMES ! nat (cs ! i)
         else str_int (cs ! i)) \<and>
      int_of_str (str_int (cs ! i)) = cs ! i"
      using reads unfolding row cls_to_box by simp
  qed
qed

lemma str_int_examples: "str_int 11 = ''11''" "str_int (- 3) = ''-3''"
  by code_simp+

lemma map_of_three:
  "length xs = 3 \<Longrightarrow> map f xs = [f (xs ! 0), f (xs ! 1), f (xs ! 2)]"
  by (auto simp: length_Suc_conv numeral_3_eq_3)

theorem unknown_class_index_falls_back_witness:
  "map cls (to_boxes [Some \<lparr>xyxy = Some [(1, 2, 3, 4), (5, 6, 7, 8), (0, 0, 9, 9)],
                            cls_ids = [11, - 3, 6], confs = [1 / 2, 3 / 4, 99 / 100]\<rparr>]) =
     [''11'', ''-3'', ''Danger Ahead'']"
proof -
  let ?rows = "[(1, 2, 3, 4), (5, 6, 7, 8), (0, 0, 9, 9)] :: (int \<times> int \<times> int \<times> int) list"
  let ?cs = "[11, - 3, 6] :: int list"
  let ?fs = "[1 / 2, 3 / 4, 99 / 100] :: real list"
  let ?bs = "to_boxes [Some \<lparr>xyxy = Some ?rows, cls_ids = ?cs, confs = ?fs\<rparr>]"
  note T = unknown_class_index_falls_back [of ?rows ?cs ?fs "[]"]
  from T have len: "length ?bs = 3" by simp
  from T have c0: "cls (?bs ! 0) = ''11''"
    by (simp add: length_CLASS_NAMES str_int_examples)
  from T have c1: "cls (?bs ! 1) = ''-3''"
    by (simp add: length_CLASS_NAMES str_int_examples)
  from T have c2: "cls (?bs ! 2) = ''Danger Ahead''"
    by (simp add: CLASS_NAMES_def)
  show ?thesis
    by (simp only: map_of_three [OF len] c0 c1 c2)
qed

subsection \<open>Latency\<close>

lemma fst_get_model_clock:
  "fst (get_model (e\<lparr>cost_decode := d\<rparr>) (w\<lparr>now := t\<rparr>)) = fst (get_model e w)"
  by (simp add: get_model_def Let_def split: option.splits)

lemma predict_ndarray_result:
  assumes "fst (get_model e w) = Inr m"
    and "cv2_resize e img INPUT_SIZE = Inr resized"
    and "model_predict e m resized thr = Inr res"
  shows "fst (predict_ndarray e w img thr) =
           Inr (to_boxes res,
                (cost_resize e img + cost_predict e resized + cost_boxes e res) * 1000)"
proof (cases "get_model e w")
  case (Pair r w1)
  with assms(1) have "get_model e w = (Inr m, w1)" by simp
  with assms(2,3) show ?thesis
    by (simp add: predict_ndarray_def Let_def algebra_simps)
qed

text \<open>
  Claim C5. When decoding, the model handle, the resize and the detector succeed,
  \<open>predict_file\<close> returns the boxes together with a latency that is 1000 times the
  seconds spent in the resize, the detection and the box mapping, and nothing else: the
  time spent decoding does not enter it, so the reported figure is the same whatever
  decoding costs.
\<close>

theorem latency_excludes_decode:
  assumes "Image_open e bts = Inr img"
    and "fst (get_model e w) = Inr m"
    and "cv2_resize e img INPUT_SIZE = Inr resized"
    and "model_predict e m resized thr = Inr res"
  shows "fst (predict_file e w bts thr) =
           Inr (to_boxes res,
                (cost_resize e img + cost_predict e resized + cost_boxes e res) * 1000) \<and>
         fst (predict_file (e\<lparr>cost_decode := d\<rparr>) w bts thr) = fst (predict_file e w bts thr)"
proof -
  let ?w1 = "w\<lparr>now := now w + cost_decode e bts\<rparr>"
  let ?e' = "e\<lparr>cost_decode := d\<rparr>"
  let ?w1' = "w\<lparr>now := now w + d bts\<rparr>"
  let ?r = "Inr (to_boxes res,
                (cost_resize e img + cost_predict e resized + cost_boxes e res) * 1000)
            :: exn + box list \<times> real"
  have "fst (get_model e ?w1) = Inr m"
    using fst_get_model_clock [where e = e and d = "cost_decode e" and w = w] assms(2) by simp
  then have "fst (predict_ndarray e ?w1 img thr) = ?r"
    using assms(3,4) by (rule predict_ndarray_result)
  then have one: "fst (predict_file e w bts thr) = ?r"
    using assms(1) by (simp add: predict_file_def Let_def)
  have "fst (get_model ?e' ?w1') = Inr m"
    using fst_get_model_clock [where e = e and d = d and w = w] assms(2) by simp
  moreover have "cv2_resize ?e' img INPUT_SIZE = Inr resized"
    and "model_predict ?e' m resized thr = Inr res"
    using assms(3,4) by simp_all
  ultimately have "fst (predict_ndarray ?e' ?w1' img thr) =
      Inr (to_boxes res,
           (cost_resize ?e' img + cost_predict ?e' resized + cost_boxes ?e' res) * 1000)"
    by (rule predict_ndarray_result)
  then have two: "fst (predict_file ?e' w bts thr) = ?r"
    using assms(1) by (simp add: predict_file_def Let_def)
  from one two show ?thesis by simp
qed

theorem latency_excludes_decode_witness:
  "fst (predict_file stub_env (fresh_world None) ''PNG'' (Some (1 / 4))) =
     Inr ([\<lparr>cls = ''Danger Ahead'', conf = 99 / 100, x1 = 10, y1 = 10, x2 = 100, y2 = 100\<rparr>],
          43 / 2) \<and>
   fst (predict_file (stub_env\<lparr>cost_decode := \<lambda>bts. 5\<rparr>) (fresh_world None) ''PNG''
          (Some (1 / 4))) =
     fst (predict_file stub_env (fresh_world None) ''PNG'' (Some (1 / 4)))"
proof -
  let ?res = "[Some \<lparr>xyxy = Some [(10, 10, 100, 100)], cls_ids = [6], confs = [99 / 100]\<rparr>]"
  have a: "Image_open stub_env ''PNG'' = Inr (NdArray 320 320 [])"
    by (simp add: stub_env_def)
  have b: "fst (get_model stub_env (fresh_world None)) = Inr (YOLO 0)"
    by (simp add: get_model_def stub_env_def fresh_world_def Let_def)
  have c: "cv2_resize stub_env (NdArray 320 320 []) INPUT_SIZE = Inr (NdArray 320 320 [])"
    by (simp add: stub_env_def INPUT_SIZE_def)
  have d: "model_predict stub_env (YOLO 0) (NdArray 320 320 []) (Some (1 / 4)) = Inr ?res"
    by (simp add: stub_env_def)
  have r: "rint (9900::real) = 9900"
    by (simp add: rint_def)
  have bs: "to_boxes ?res =
      [\<lparr>cls = ''Danger Ahead'', conf = 99 / 100, x1 = 10, y1 = 10, x2 = 100, y2 = 100\<rparr>]"
    by (simp add: to_boxes_def to_box_def CLASS_NAMES_def py_round_def r)
  have t: "(cost_resize stub_env (NdArray 320 320 []) + cost_predict stub_env (NdArray 320 320 [])
        + cost_boxes stub_env ?res) * 1000 = 43 / 2"
    by (simp add: stub_env_def)
  from latency_excludes_decode [OF a b c d, of "\<lambda>bts. 5"] show ?thesis
    unfolding bs t by simp
qed

section \<open>Properties of the request handlers\<close>

subsection \<open>What inference leaves untouched\<close>

lemma get_model_frame:
  "tracker (snd (get_model e w)) = tracker w \<and>
   predict_log (snd (get_model e w)) = predict_log w \<and>
   file_reads (snd (get_model e w)) = file_reads w"
  by (simp add: get_model_def Let_def split: option.splits)

lemma predict_ndarray_frame:
  "tracker (snd (predict_ndarray e w img thr)) = tracker w \<and>
   predict_log (snd (predict_ndarray e w img thr)) = predict_log w \<and>
   file_reads (snd (predict_ndarray e w img thr)) = file_reads w"
proof (cases "get_model e w")
  case (Pair r w1)
  with get_model_frame [of e w]
  have f: "tracker w1 = tracker w" "predict_log w1 = predict_log w" "file_reads w1 = file_reads w"
    by simp_all
  show ?thesis
    using Pair f by (simp add: predict_ndarray_def Let_def split: sum.splits)
qed

lemma predict_file_frame:
  "tracker (snd (predict_file e w bts thr)) = tracker w \<and>
   predict_log (snd (predict_file e w bts thr)) = predict_log w \<and>
   file_reads (snd (predict_file e w bts thr)) = file_reads w"
  using predict_ndarray_frame [of e "w\<lparr>now := now w + cost_decode e bts\<rparr>"]
  by (simp add: predict_file_def Let_def split: sum.splits)

lemma log_async_Returns: "\<exists>t. log_async s rn ms ps = (Returns (), t)"
  using log_async_returns [of s rn ms ps] by (cases "log_async s rn ms ps") simp

subsection \<open>The content type test\<close>

lemma batch_loop_content_type:
  "batch_loop e thr (map (\<lambda>f. f\<lparr>content_type := g f\<rparr>) fs) acc w = batch_loop e thr fs acc w"
proof (induction fs arbitrary: acc w)
  case Nil
  then show ?case by simp
next
  case (Cons f fs)
  obtain res tc tb where acc: "acc = (res, tc, tb)" by (cases acc)
  show ?case
    unfolding acc using Cons.IH
    by (simp add: read_file_def split: prod.splits sum.splits)
qed

text \<open>
  Claim C10. When the uploaded file has no content type, or one that starts with neither
  \<open>image/\<close> nor \<open>application/octet-stream\<close>, \<open>predict\<close> ends with status 400 and
  the process state is exactly what it was: no file read, no detector call, no audit
  row, no queued item. \<open>predict_batch\<close> never looks at content types: replacing them
  in any way changes neither its result nor its effects.
\<close>

theorem predict_rejects_content_type:
  "((content_type f = None \<or>
     (\<exists>ct. content_type f = Some ct \<and> \<not> startswith ct ''image/'' \<and>
           \<not> startswith ct ''application/octet-stream''))
      \<longrightarrow> predict e w f thr = (HTTPException 400 ''Please upload an image file.'', w)) \<and>
   predict_batch e w (map (\<lambda>f. f\<lparr>content_type := g f\<rparr>) files) c = predict_batch e w files c"
proof (intro conjI impI)
  assume "content_type f = None \<or>
     (\<exists>ct. content_type f = Some ct \<and> \<not> startswith ct ''image/'' \<and>
           \<not> startswith ct ''application/octet-stream'')"
  then have "rejected_content_type f"
    by (auto simp: rejected_content_type_def)
  then show "predict e w f thr = (HTTPException 400 ''Please upload an image file.'', w)"
    by (simp add: predict_def)
next
  show "predict_batch e w (map (\<lambda>f. f\<lparr>content_type := g f\<rparr>) files) c = predict_batch e w files c"
    by (simp only: predict_batch_def batch_loop_content_type length_map)
qed

theorem predict_rejects_content_type_witness:
  "(\<exists>ct. content_type text_file = Some ct \<and> \<not> startswith ct ''image/'' \<and>
           \<not> startswith ct ''application/octet-stream'') \<and>
   predict stub_env (fresh_world None) text_file (Some (1 / 4)) =
     (HTTPException 400 ''Please upload an image file.'', fresh_world None) \<and>
   predict_batch stub_env (fresh_world None) [text_file] (1 / 4) =
   predict_batch stub_env (fresh_world None) [png ''notes.txt''\<lparr>content := ''hello''\<rparr>] (1 / 4)"
proof -
  have a: "\<exists>ct. content_type text_file = Some ct \<and> \<not> startswith ct ''image/'' \<and>
           \<not> startswith ct ''application/octet-stream''"
    by (simp add: text_file_def startswith_def)
  have b: "map (\<lambda>f. f\<lparr>content_type := Some ''text/plain''\<rparr>) [png ''notes.txt''\<lparr>content := ''hello''\<rparr>]
      = [text_file]"
    by (simp add: text_file_def png_def)
  from predict_rejects_content_type [of text_file stub_env "fresh_world None" "Some (1 / 4)"
      "\<lambda>f. Some ''text/plain''" "[png ''notes.txt''\<lparr>content := ''hello''\<rparr>]" "1 / 4"] a
  show ?thesis
    unfolding b by blast
qed

subsection \<open>Rounding\<close>

lemma rint_close: "\<bar>of_int (rint x) - x\<bar> \<le> 1 / 2"
proof -
  define f where "f = \<lfloor>x\<rfloor>"
  define d where "d = x - of_int f"
  have d: "0 \<le> d" "d < 1" unfolding d_def f_def by linarith+
  have x: "x = of_int f + d" unfolding d_def by simp
  have r: "rint x = (if d < 1 / 2 then f else if 1 / 2 < d then f + 1
                     else if even f then f else f + 1)"
    unfolding rint_def Let_def d_def f_def ..
  consider "d < 1 / 2" | "1 / 2 < d" | "d = 1 / 2" by linarith
  then show ?thesis
  proof cases
    case 1
    with r have "rint x = f" by simp
    with x d 1 show ?thesis by simp
  next
    case 2
    with r have "rint x = f + 1" by simp
    with x d 2 show ?thesis by simp
  next
    case 3
    with r have "rint x = f \<or> rint x = f + 1" by simp
    with x 3 show ?thesis by auto
  qed
qed

lemma py_round_close: "\<bar>py_round x 2 - x\<bar> \<le> 1 / 200"
proof -
  have "\<bar>of_int (rint (x * 100)) - x * 100\<bar> \<le> 1 / 2" by (rule rint_close)
  then have "\<bar>of_int (rint (x * 100)) - x * 100\<bar> / 100 \<le> (1 / 2) / 100"
    by (intro divide_right_mono) simp_all
  moreover have "\<bar>of_int (rint (x * 100)) - x * 100\<bar> / 100 = \<bar>py_round x 2 - x\<bar>"
  proof -
    have "\<bar>of_int (rint (x * 100)) - x * 100\<bar> / 100 =
          \<bar>(of_int (rint (x * 100)) - x * 100) / 100\<bar>" by simp
    also have "(of_int (rint (x * 100)) - x * 100) / 100 = py_round x 2 - x"
      by (simp add: py_round_def diff_divide_distrib)
    finally show ?thesis .
  qed
  ultimately show ?thesis by simp
qed

lemma rounded_average_close:
  assumes "0 < n"
  shows "\<bar>py_round (x / real n) 2 - py_round x 2 / real n\<bar> \<le> 1 / 100"
proof -
  have n: "1 \<le> real n" using assms by simp
  have a: "\<bar>py_round (x / real n) 2 - x / real n\<bar> \<le> 1 / 200" by (rule py_round_close)
  have c: "\<bar>x - py_round x 2\<bar> \<le> 1 / 200"
    using py_round_close [of x] by (simp add: abs_minus_commute)
  have "\<bar>x - py_round x 2\<bar> / real n \<le> (1 / 200) / real n"
    using c n by (intro divide_right_mono) simp_all
  also have "\<dots> \<le> 1 / 200" using n by (simp add: field_simps)
  finally have "\<bar>x - py_round x 2\<bar> / real n \<le> 1 / 200" .
  moreover have "\<bar>x - py_round x 2\<bar> / real n = \<bar>x / real n - py_round x 2 / real n\<bar>"
  proof -
    have "\<bar>x - py_round x 2\<bar> / real n = \<bar>(x - py_round x 2) / real n\<bar>" by simp
    also have "(x - py_round x 2) / real n = x / real n - py_round x 2 / real n"
      by (rule diff_divide_distrib)
    finally show ?thesis .
  qed
  ultimately have b: "\<bar>x / real n - py_round x 2 / real n\<bar> \<le> 1 / 200" by simp
  from a b show ?thesis by linarith
qed


subsection \<open>Evaluating the stubbed pipeline\<close>

lemma rint_9900: "rint 9900 = 9900"
  by (simp add: rint_def)

lemma stub_predict_file:
  "model w = None \<Longrightarrow>
   predict_file stub_env w ''PNG'' thr =
     (Inr ([stub_box], 43 / 2),
      w\<lparr>now := now w + 1 / 3000 + 3 / 1000 + 1 / 1000 + 1 / 50 + 1 / 2000,
        model := Some (YOLO (YOLO_calls w)),
        YOLO_calls := Suc (YOLO_calls w),
        detector_calls := Suc (detector_calls w)\<rparr>)"
  by (simp add: predict_file_def predict_ndarray_def get_model_def stub_env_def Let_def
        to_boxes_def to_box_def CLASS_NAMES_def py_round_def rint_9900 stub_box_def
        INPUT_SIZE_def)

lemma stub_predict_file_cached:
  "model w = Some m \<Longrightarrow>
   predict_file stub_env w ''PNG'' thr =
     (Inr ([stub_box], 43 / 2),
      w\<lparr>now := now w + 1 / 3000 + 1 / 1000 + 1 / 50 + 1 / 2000,
        detector_calls := Suc (detector_calls w)\<rparr>)"
  by (simp add: predict_file_def predict_ndarray_def get_model_def stub_env_def Let_def
        to_boxes_def to_box_def CLASS_NAMES_def py_round_def rint_9900 stub_box_def
        INPUT_SIZE_def)


lemma rint_6850: "rint 6850 = 6850"
  by (simp add: rint_def)

lemma rint_avg: "rint (6850 / 3) = 2283"
  by (simp add: rint_def)

lemma stub_batch_response:
  "fst (predict_batch stub_env (fresh_world None) stub_batch (1 / 4)) = Response stub_batch_result"
  by (simp add: predict_batch_def stub_batch_def png_def read_file_def fresh_world_def
        stub_predict_file stub_predict_file_cached log_async_def mltrack_import_def
        Let_def py_round_def rint_6850 rint_avg stub_batch_result_def)

subsection \<open>The batch handler\<close>

lemma batch_loop_results:
  assumes "batch_loop e thr fs (res, tc, tb) w = (Inr (res', tc', tb'), w')"
  shows "\<exists>new. res' = res @ new \<and>
           list_all2 (\<lambda>f en. entry_filename en = filename f \<and>
                        (\<exists>wi. fst (predict_file e wi (content f) (Some thr)) =
                                Inr (entry_boxes en, entry_latency_ms en)))
             fs new"
  using assms
proof (induction fs arbitrary: res tc tb w)
  case Nil
  then show ?case by simp
next
  case (Cons f fs)
  let ?w1 = "w\<lparr>file_reads := Suc (file_reads w)\<rparr>"
  obtain r w2 where pf: "predict_file e ?w1 (content f) (Some thr) = (r, w2)"
    by (cases "predict_file e ?w1 (content f) (Some thr)")
  show ?case
  proof (cases r)
    case (Inl x)
    with pf Cons.prems show ?thesis by (simp add: read_file_def)
  next
    case (Inr p)
    obtain bs lat where p: "p = (bs, lat)" by (cases p)
    let ?en = "\<lparr>entry_filename = filename f, entry_boxes = bs, entry_latency_ms = lat\<rparr>"
    from pf Inr p Cons.prems
    have "batch_loop e thr fs (res @ [?en], count_classes tc bs, tb + length bs) w2 =
            (Inr (res', tc', tb'), w')"
      by (simp add: read_file_def)
    from Cons.IH [OF this] obtain new where
      new: "res' = (res @ [?en]) @ new"
        "list_all2 (\<lambda>f en. entry_filename en = filename f \<and>
                        (\<exists>wi. fst (predict_file e wi (content f) (Some thr)) =
                                Inr (entry_boxes en, entry_latency_ms en)))
             fs new"
      by blast
    have "fst (predict_file e ?w1 (content f) (Some thr)) =
            Inr (entry_boxes ?en, entry_latency_ms ?en)"
      using pf Inr p by simp
    then have "\<exists>wi. fst (predict_file e wi (content f) (Some thr)) =
            Inr (entry_boxes ?en, entry_latency_ms ?en)" by blast
    with new show ?thesis
      by (intro exI [of _ "?en # new"]) simp
  qed
qed

text \<open>
  Claim C7, as amended. When \<open>predict_batch\<close> answers, \<open>results\<close> has one entry per
  uploaded file, in the order of the files: the \<open>i\<close>-th entry carries the name of the
  \<open>i\<close>-th file and the boxes and latency that \<open>predict_file\<close> returned for its bytes.
  With \<open>elapsed\<close> the unrounded wall-clock milliseconds of the loop and \<open>N\<close> the number
  of files, \<open>batch_latency_ms\<close> is \<open>elapsed\<close> rounded to two decimals and
  \<open>avg_latency_ms\<close> is \<open>elapsed / max(1, N)\<close> rounded to two decimals; for \<open>N \<ge> 1\<close>
  the returned average therefore differs from \<open>batch_latency_ms / N\<close> by at most 0.01, and
  need not equal it.
\<close>

theorem batch_order_and_rounded_average:
  assumes "fst (predict_batch e w files thr) = Response r"
  shows "batch_size r = length files \<and>
         list_all2 (\<lambda>f en. entry_filename en = filename f \<and>
                      (\<exists>wi. fst (predict_file e wi (content f) (Some thr)) =
                              Inr (entry_boxes en, entry_latency_ms en)))
           files (results r) \<and>
         batch_latency_ms r =
           py_round ((now (snd (predict_batch e w files thr)) - now w) * 1000) 2 \<and>
         avg_latency_ms r =
           py_round ((now (snd (predict_batch e w files thr)) - now w) * 1000 /
                     real (max 1 (length files))) 2 \<and>
         (files \<noteq> [] \<longrightarrow>
            \<bar>avg_latency_ms r - batch_latency_ms r / real (length files)\<bar> \<le> 1 / 100)"
proof -
  obtain br w1 where bl: "batch_loop e thr files ([], [], 0) w = (br, w1)"
    by (cases "batch_loop e thr files ([], [], 0) w")
  show ?thesis
  proof (cases br)
    case (Inl x)
    with bl assms show ?thesis by (simp add: predict_batch_def)
  next
    case (Inr acc)
    obtain res tc tb where acc: "acc = (res, tc, tb)" by (cases acc)
    let ?elapsed = "(now w1 - now w) * 1000"
    let ?avg = "?elapsed / real (max 1 (length files))"
    obtain t where la: "log_async (tracker w1) ''batch_inference''
        (dict_update
           [(''batch_latency_ms'', py_round ?elapsed 2),
            (''avg_latency_ms'', py_round ?avg 2),
            (''batch_size'', real (length files)),
            (''n_boxes_total'', real tb)]
           (class_count_metrics tc))
        (Some (logged_params e (Some thr))) = (Returns (), t)"
      using log_async_Returns by blast
    have pb: "predict_batch e w files thr =
        (Response \<lparr>batch_size = length files, results = res,
                    batch_latency_ms = py_round ?elapsed 2,
                    avg_latency_ms = py_round ?avg 2\<rparr>,
         w1\<lparr>tracker := t\<rparr>)"
      using bl Inr acc la by (simp add: predict_batch_def Let_def)
    with assms have r: "r = \<lparr>batch_size = length files, results = res,
                    batch_latency_ms = py_round ?elapsed 2,
                    avg_latency_ms = py_round ?avg 2\<rparr>" by simp
    from batch_loop_results [of e thr files "[]" "[]" 0 w res tc tb w1] bl Inr acc
    have order: "list_all2 (\<lambda>f en. entry_filename en = filename f \<and>
                      (\<exists>wi. fst (predict_file e wi (content f) (Some thr)) =
                              Inr (entry_boxes en, entry_latency_ms en)))
           files res" by simp
    have close: "files \<noteq> [] \<Longrightarrow>
        \<bar>py_round ?avg 2 - py_round ?elapsed 2 / real (length files)\<bar> \<le> 1 / 100"
    proof -
      assume "files \<noteq> []"
      then have pos: "0 < length files" by simp
      have "max 1 (length files) = length files"
        using \<open>files \<noteq> []\<close> by (cases files) simp_all
      with rounded_average_close [OF pos, of ?elapsed] show ?thesis by simp
    qed
    from r order close pb show ?thesis by simp
  qed
qed

theorem batch_order_and_rounded_average_witness:
  "fst (predict_batch stub_env (fresh_world None) stub_batch (1 / 4)) = Response stub_batch_result \<and>
   batch_size stub_batch_result = length stub_batch \<and>
   map entry_filename (results stub_batch_result) = map filename stub_batch \<and>
   avg_latency_ms stub_batch_result =
     py_round ((now (snd (predict_batch stub_env (fresh_world None) stub_batch (1 / 4)))
                 - now (fresh_world None)) * 1000 / real (max 1 (length stub_batch))) 2 \<and>
   stub_batch \<noteq> [] \<and>
   \<bar>avg_latency_ms stub_batch_result
      - batch_latency_ms stub_batch_result / real (length stub_batch)\<bar> \<le> 1 / 100"
proof -
  note T = batch_order_and_rounded_average [OF stub_batch_response]
  have ne: "stub_batch \<noteq> []" by (simp add: stub_batch_def)
  have names: "map entry_filename (results stub_batch_result) = map filename stub_batch"
    by (simp add: stub_batch_def stub_batch_result_def png_def)
  from T ne names stub_batch_response show ?thesis by blast
qed

text \<open>
  Claim C7 as stated fails. Three images and 68.5 ms in all: the returned average is
  22.83, not 68.5 / 3.
\<close>

theorem batch_average_counterexample:
  "fst (predict_batch stub_env (fresh_world None) stub_batch (1 / 4)) = Response stub_batch_result \<and>
   length stub_batch = 3 \<and>
   avg_latency_ms stub_batch_result \<noteq> batch_latency_ms stub_batch_result / 3"
  by (simp add: stub_batch_response) (simp add: stub_batch_def stub_batch_result_def)

subsection \<open>Audit rows and queued items\<close>

lemma batch_loop_frame:
  "predict_log (snd (batch_loop e thr fs acc w)) = predict_log w \<and>
   tracker (snd (batch_loop e thr fs acc w)) = tracker w"
proof (induction fs arbitrary: acc w)
  case Nil
  then show ?case by simp
next
  case (Cons f fs)
  obtain res tc tb where acc: "acc = (res, tc, tb)" by (cases acc)
  let ?w1 = "w\<lparr>file_reads := Suc (file_reads w)\<rparr>"
  obtain r w2 where pf: "predict_file e ?w1 (content f) (Some thr) = (r, w2)"
    by (cases "predict_file e ?w1 (content f) (Some thr)")
  from predict_file_frame [of e ?w1 "content f" "Some thr"] pf
  have fr: "predict_log w2 = predict_log w" "tracker w2 = tracker w" by simp_all
  show ?case
  proof (cases r)
    case (Inl x)
    with pf fr acc show ?thesis by (simp add: read_file_def)
  next
    case (Inr p)
    obtain bs lat where p: "p = (bs, lat)" by (cases p)
    from pf Inr p acc Cons.IH [of _ w2] fr show ?thesis
      by (simp add: read_file_def)
  qed
qed

lemma predict_batch_writes_no_row:
  "predict_log (snd (predict_batch e w files thr)) = predict_log w"
proof -
  obtain br w1 where bl: "batch_loop e thr files ([], [], 0) w = (br, w1)"
    by (cases "batch_loop e thr files ([], [], 0) w")
  with batch_loop_frame [of e thr files "([], [], 0)" w]
  have "predict_log w1 = predict_log w" by simp
  with bl show ?thesis
    by (auto simp: predict_batch_def Let_def split: sum.splits prod.splits outcome.splits)
qed

lemma predict_Response:
  assumes "fst (predict e w f thr) = Response r"
  shows "\<exists>bs lat w2 t.
           predict_file e (w\<lparr>file_reads := Suc (file_reads w)\<rparr>) (content f) thr =
             (Inr (bs, lat), w2) \<and>
           log_async (tracker w) ''inference''
             (dict_update [(''latency_ms'', lat), (''n_boxes'', real (length bs))]
                (class_count_metrics (count_classes [] bs)))
             (Some (logged_params e thr)) = (Returns (), t) \<and>
           r = \<lparr>response_file = filename f, conf_threshold = thr, boxes = bs,
                latency_ms = py_round lat 3\<rparr> \<and>
           snd (predict e w f thr) =
             w2\<lparr>predict_log := predict_log w @ map (csv_row e w2 f lat) bs, tracker := t\<rparr>"
proof -
  let ?w1 = "w\<lparr>file_reads := Suc (file_reads w)\<rparr>"
  obtain pr w2 where pf: "predict_file e ?w1 (content f) thr = (pr, w2)"
    by (cases "predict_file e ?w1 (content f) thr")
  from predict_file_frame [of e ?w1 "content f" thr] pf
  have fr: "predict_log w2 = predict_log w" "tracker w2 = tracker w" by simp_all
  from assms have ok: "\<not> rejected_content_type f"
    by (auto simp: predict_def)
  show ?thesis
  proof (cases pr)
    case (Inl x)
    with pf ok assms show ?thesis
      by (simp add: predict_def predict_try_def read_file_def split: if_splits)
  next
    case (Inr p)
    obtain bs lat where p: "p = (bs, lat)" by (cases p)
    obtain t where la: "log_async (tracker w) ''inference''
             (dict_update [(''latency_ms'', lat), (''n_boxes'', real (length bs))]
                (class_count_metrics (count_classes [] bs)))
             (Some (logged_params e thr)) = (Returns (), t)"
      using log_async_Returns by blast
    show ?thesis
    proof (cases "sink_open e")
      case (Some x)
      with pf Inr p ok assms show ?thesis
        by (simp add: predict_def predict_try_def read_file_def split: if_splits)
    next
      case None
      with pf Inr p ok la fr
      have "predict e w f thr =
          (Response \<lparr>response_file = filename f, conf_threshold = thr, boxes = bs,
                latency_ms = py_round lat 3\<rparr>,
           w2\<lparr>predict_log := predict_log w @ map (csv_row e w2 f lat) bs, tracker := t\<rparr>)"
        by (simp add: predict_def predict_try_def read_file_def Let_def)
      with assms pf Inr p la show ?thesis by simp
    qed
  qed
qed

text \<open>
  The single-image handler does write the audit rows: a call that answers appends one
  row per returned box, each with a time stamp, the file name, the class, the
  confidence, the four coordinates and the latency of the response.
\<close>

lemma predict_appends_one_row_per_box:
  assumes "fst (predict e w f thr) = Response r"
  shows "\<exists>ts. predict_log (snd (predict e w f thr)) =
           predict_log w @
           map (\<lambda>b. [StrCell ts,
                     (case filename f of None \<Rightarrow> NoneCell | Some n \<Rightarrow> StrCell n),
                     StrCell (cls b), FloatCell (conf b),
                     IntCell (x1 b), IntCell (y1 b), IntCell (x2 b), IntCell (y2 b),
                     FloatCell (latency_ms r)])
             (boxes r)"
proof -
  from predict_Response [OF assms] obtain bs lat w2 t where
    r: "r = \<lparr>response_file = filename f, conf_threshold = thr, boxes = bs,
                latency_ms = py_round lat 3\<rparr>"
    and w: "snd (predict e w f thr) =
             w2\<lparr>predict_log := predict_log w @ map (csv_row e w2 f lat) bs, tracker := t\<rparr>"
    by blast
  have "predict_log (snd (predict e w f thr)) =
           predict_log w @
           map (\<lambda>b. [StrCell (strftime e (now w2)),
                     (case filename f of None \<Rightarrow> NoneCell | Some n \<Rightarrow> StrCell n),
                     StrCell (cls b), FloatCell (conf b),
                     IntCell (x1 b), IntCell (y1 b), IntCell (x2 b), IntCell (y2 b),
                     FloatCell (latency_ms r)])
             (boxes r)"
    unfolding w r by (simp add: csv_row_def)
  then show ?thesis by blast
qed

text \<open>
  A call of \<open>predict\<close> that answers has enqueued exactly one item, when a backend is
  configured and the queue has room.
\<close>

lemma predict_enqueues_once:
  assumes "fst (predict e w f thr) = Response r"
    and "\<not> falsy (MLFLOW_URI (tracker w))"
    and "length (items (q (tracker w))) < maxsize (q (tracker w))"
  shows "\<exists>lat. latency_ms r = py_round lat 3 \<and>
           items (q (tracker (snd (predict e w f thr)))) =
             items (q (tracker w)) @
             [Some \<lparr>run_name = ''inference'',
                    metrics = dict_update
                       [(''latency_ms'', lat), (''n_boxes'', real (length (boxes r)))]
                       (class_count_metrics (count_classes [] (boxes r))),
                    params = logged_params e thr\<rparr>]"
proof -
  from predict_Response [OF assms(1)] obtain bs lat w2 t where
    la: "log_async (tracker w) ''inference''
             (dict_update [(''latency_ms'', lat), (''n_boxes'', real (length bs))]
                (class_count_metrics (count_classes [] bs)))
             (Some (logged_params e thr)) = (Returns (), t)"
    and r: "r = \<lparr>response_file = filename f, conf_threshold = thr, boxes = bs,
                latency_ms = py_round lat 3\<rparr>"
    and w: "snd (predict e w f thr) =
             w2\<lparr>predict_log := predict_log w @ map (csv_row e w2 f lat) bs, tracker := t\<rparr>"
    by blast
  from la log_async_enqueues_at_tail [OF assms(2,3)]
  have "t = (tracker w)\<lparr>q := (q (tracker w))\<lparr>items := items (q (tracker w)) @
             [Some \<lparr>run_name = ''inference'',
                    metrics = dict_update
                       [(''latency_ms'', lat), (''n_boxes'', real (length bs))]
                       (class_count_metrics (count_classes [] bs)),
                    params = logged_params e thr\<rparr>],
             unfinished_tasks := Suc (unfinished_tasks (q (tracker w)))\<rparr>\<rparr>"
    by simp
  then have "items (q t) = items (q (tracker w)) @
             [Some \<lparr>run_name = ''inference'',
                    metrics = dict_update
                       [(''latency_ms'', lat), (''n_boxes'', real (length bs))]
                       (class_count_metrics (count_classes [] bs)),
                    params = logged_params e thr\<rparr>]"
    by simp
  with r w show ?thesis by auto
qed

lemma stub_env_service:
  "sink_open stub_env = None" "API_WORKERS stub_env = None"
  "strftime stub_env t = ''2025-01-01 00:00:00''" "str_float stub_env x = ''0.25''"
  by (simp_all add: stub_env_def)

lemma str_nat_INPUT_SIZE: "str_nat INPUT_SIZE = ''320''"
  unfolding INPUT_SIZE_def by code_simp

text \<open>
  Claim C8 asks for one audit row per detection box after every successful call, single
  or batch. \<open>predict\<close> writes them (\<open>predict_appends_one_row_per_box\<close>);
  \<open>predict_batch\<close> never touches the audit file (\<open>predict_batch_writes_no_row\<close>). In
  the stubbed environment the batch of three images is answered with one box per image
  and the audit file stays empty, while a single call for the first image appends its
  row.
\<close>

theorem predict_batch_skips_audit_log:
  "fst (predict_batch stub_env (fresh_world None) stub_batch (1 / 4)) = Response stub_batch_result \<and>
   map (\<lambda>en. length (entry_boxes en)) (results stub_batch_result) = [1, 1, 1] \<and>
   predict_log (snd (predict_batch stub_env (fresh_world None) stub_batch (1 / 4))) = [] \<and>
   predict_log (snd (predict stub_env (fresh_world None) (png ''a.png'') (Some (1 / 4)))) =
     [[StrCell ''2025-01-01 00:00:00'', StrCell ''a.png'', StrCell ''Danger Ahead'',
       FloatCell (99 / 100), IntCell 10, IntCell 10, IntCell 100, IntCell 100,
       FloatCell (43 / 2)]]"
proof -
  have a: "predict_log (snd (predict_batch stub_env (fresh_world None) stub_batch (1 / 4))) = []"
    using predict_batch_writes_no_row [of stub_env "fresh_world None" stub_batch "1 / 4"]
    by (simp add: fresh_world_def)
  have b: "map (\<lambda>en. length (entry_boxes en)) (results stub_batch_result) = [1, 1, 1]"
    by (simp add: stub_batch_result_def)
  have r: "rint 21500 = 21500" by (simp add: rint_def)
  have c: "predict_log (snd (predict stub_env (fresh_world None) (png ''a.png'') (Some (1 / 4)))) =
     [[StrCell ''2025-01-01 00:00:00'', StrCell ''a.png'', StrCell ''Danger Ahead'',
       FloatCell (99 / 100), IntCell 10, IntCell 10, IntCell 100, IntCell 100,
       FloatCell (43 / 2)]]"
    by (simp add: predict_def predict_try_def rejected_content_type_def startswith_def png_def
          read_file_def fresh_world_def stub_predict_file log_async_def mltrack_import_def
          Let_def csv_row_def stub_box_def py_round_def r stub_env_service)
  from stub_batch_response a b c show ?thesis by blast
qed

text \<open>
  Claim C9 asks for one enqueued item per successful call whose parameters include the
  configured model input size. One item is enqueued (\<open>predict_enqueues_once\<close>), with
  the threshold and the worker count, but under \<open>imgsz\<close> both handlers log the literal
  \<open>640\<close>, while the configured \<open>INPUT_SIZE\<close>, the size the images are resized to, is
  320.
\<close>

theorem logged_imgsz_is_not_INPUT_SIZE:
  "map (map_option params)
     (items (q (tracker (snd (predict stub_env (fresh_world (Some ''http://mlflow:5000''))
                                 (png ''a.png'') (Some (1 / 4))))))) =
     [Some [(''conf'', ''0.25''), (''imgsz'', ''640''), (''api_workers'', ''1'')]] \<and>
   map (map_option params)
     (items (q (tracker (snd (predict_batch stub_env (fresh_world (Some ''http://mlflow:5000''))
                                 stub_batch (1 / 4)))))) =
     [Some [(''conf'', ''0.25''), (''imgsz'', ''640''), (''api_workers'', ''1'')]] \<and>
   str_nat INPUT_SIZE = ''320''"
proof -
  have a: "map (map_option params)
     (items (q (tracker (snd (predict stub_env (fresh_world (Some ''http://mlflow:5000''))
                                 (png ''a.png'') (Some (1 / 4))))))) =
     [Some [(''conf'', ''0.25''), (''imgsz'', ''640''), (''api_workers'', ''1'')]]"
    by (simp add: predict_def predict_try_def rejected_content_type_def startswith_def png_def
          read_file_def fresh_world_def stub_predict_file log_async_def mltrack_import_def
          Let_def put_nowait_def put_def Queue_def logged_params_def str_conf_def
          stub_env_service)
  have b: "map (map_option params)
     (items (q (tracker (snd (predict_batch stub_env (fresh_world (Some ''http://mlflow:5000''))
                                 stub_batch (1 / 4)))))) =
     [Some [(''conf'', ''0.25''), (''imgsz'', ''640''), (''api_workers'', ''1'')]]"
    by (simp add: predict_batch_def stub_batch_def png_def read_file_def fresh_world_def
          stub_predict_file stub_predict_file_cached log_async_def mltrack_import_def
          Let_def put_nowait_def put_def Queue_def logged_params_def str_conf_def
          stub_env_service)
  from a b str_nat_INPUT_SIZE show ?thesis by blast
qed

end
